theory Spec2Isabelle
  imports Main
begin

section \<open>Values, responses and the environment\<close>

text \<open>
  A shallow embedding of \<^verbatim>\<open>server.js\<close>. Strings are byte sequences: the UTF-8 form in
  which \<^verbatim>\<open>res.json\<close> writes them, so the Turkish messages of the source keep their
  letters as two-byte sequences. A value that may be \<^verbatim>\<open>undefined\<close> (an environment
  variable, a header, a body field, a query parameter) is a \<open>string option\<close>; body fields
  and query parameters that are not text (numbers, arrays, objects) lie outside the model.
\<close>

datatype jsval =
    JUndefined
  | JNull
  | JNum int
  | JStr string
  | JDate nat
  | JArr "jsval list"
  | JObj "(string \<times> jsval) list"

text \<open>
  \<^verbatim>\<open>res.json(v)\<close> is \<open>Json 200 v\<close> and \<^verbatim>\<open>res.status(n).json(v)\<close> is \<open>Json n v\<close>;
  \<^verbatim>\<open>res.sendStatus(n)\<close> carries the status code and nothing of the caller's choosing;
  \<^verbatim>\<open>res.sendFile(path.join(__dirname, a, b))\<close> is \<open>SendFile [a, b]\<close>. A request that
  neither a file of \<^verbatim>\<open>public/\<close> nor a route of \<^verbatim>\<open>server.js\<close> matches gets the 404 of
  Express itself (\<open>NotFound\<close>).
\<close>

datatype response =
    Json nat jsval
  | Redirect string
  | SendStatus nat
  | SendFile "string list"
  | NotFound

fun status :: "response \<Rightarrow> nat" where
  "status (Json n v) = n"
| "status (Redirect l) = 302"
| "status (SendStatus n) = n"
| "status (SendFile p) = 200"
| "status NotFound = 404"

record env =
  DATABASE_URL :: "string option"
  SESSION_SECRET :: "string option"
  ADMIN_USERNAME :: "string option"
  ADMIN_PASSWORD :: "string option"
  COMPANY_NAME :: "string option"
  COMPANY_ICON_URL :: "string option"

text \<open>JavaScript's \<^verbatim>\<open>!v\<close> on a value that is \<^verbatim>\<open>undefined\<close> or a string.\<close>

definition falsy :: "string option \<Rightarrow> bool" where
  "falsy v = (case v of None \<Rightarrow> True | Some s \<Rightarrow> s = [])"

text \<open>\<^verbatim>\<open>a || b\<close> with a string default.\<close>

definition or_else :: "string option \<Rightarrow> string \<Rightarrow> string" where
  "or_else v d = (case v of None \<Rightarrow> d | Some s \<Rightarrow> if s = [] then d else s)"

datatype boot = Exit int | Started

text \<open>Lines 13 to 22: the check of the four required variables, before anything else runs.\<close>

definition startup :: "env \<Rightarrow> boot" where
  "startup e =
     (if falsy (DATABASE_URL e) \<or> falsy (SESSION_SECRET e)
         \<or> falsy (ADMIN_USERNAME e) \<or> falsy (ADMIN_PASSWORD e)
      then Exit 1 else Started)"

section \<open>The table \<^verbatim>\<open>apps\<close> and the four statements\<close>

text \<open>
  A row of \<^verbatim>\<open>apps\<close> as the \<^verbatim>\<open>CREATE TABLE\<close> of lines 44 to 53 declares it: \<^verbatim>\<open>title\<close>
  and \<^verbatim>\<open>url\<close> are \<^verbatim>\<open>NOT NULL\<close>, \<^verbatim>\<open>image\<close> and \<^verbatim>\<open>healthpath\<close> may be \<^verbatim>\<open>NULL\<close>.
  \<^verbatim>\<open>created_at\<close> is an instant as the program reads it back: the column is a
  \<^verbatim>\<open>TIMESTAMP\<close> without time zone, which the driver turns into a date in the zone of the
  server. No statement of the program writes it, so it always holds the column default. The columns carry the prefix \<open>c_\<close>
  (\<open>id\<close> and \<open>image\<close> are constants of HOL).
\<close>

record app =
  c_id :: int
  c_title :: string
  c_url :: string
  c_image :: "string option"
  c_healthpath :: "string option"
  c_created_at :: nat

text \<open>
  The store holds the rows in their physical order and the last value handed out by the
  sequence behind \<^verbatim>\<open>id SERIAL\<close>.
\<close>

record store =
  apps :: "app list"
  apps_id_seq :: int

definition fresh_store :: store where
  "fresh_store = \<lparr>apps = [], apps_id_seq = 0\<rparr>"

datatype pg_error =
    StoreFailure string
  | InvalidInteger string
  | NotNullViolation string
  | SequenceExhausted
  | UniqueViolation int

text \<open>
  What the program does not decide is a parameter of each request: how the store reads a
  text parameter as an integer (\<open>int4in\<close>), the text of an error (\<open>message\<close>, the
  \<^verbatim>\<open>err.message\<close> of the handlers), a failure of the store or of the connection that does
  not depend on the statement (\<open>fault\<close>), the clock of the server when the request
  arrives (\<open>called_at\<close>), the value of \<^verbatim>\<open>CURRENT_TIMESTAMP\<close> in the store when the
  statement runs, as the program reads it back (\<open>now\<close>), the outcome of \<^verbatim>\<open>fetch(url)\<close>
  (the message of the error thrown, or the status and the body of the answer), what
  \<^verbatim>\<open>res.sendStatus\<close> does with a status code (\<open>sendStatus_error\<close>: \<open>None\<close> when it sends
  it, the message of the error it throws when the HTTP layer of the server refuses the
  code) and whether destroying the session fails. The program never compares \<open>called_at\<close>
  with \<open>now\<close>: they are readings of two clocks, on two machines and in two zones.
\<close>

record world =
  int4in :: "string \<Rightarrow> int option"
  message :: "pg_error \<Rightarrow> string"
  fault :: "pg_error option"
  called_at :: nat
  now :: nat
  fetch :: "string \<Rightarrow> string + (nat \<times> string)"
  sendStatus_error :: "nat \<Rightarrow> string option"
  destroy_err :: bool

text \<open>\<^verbatim>\<open>SELECT * FROM apps ORDER BY created_at DESC\<close> (line 72).\<close>

definition select_all :: "world \<Rightarrow> store \<Rightarrow> pg_error + app list" where
  "select_all w st =
     (case fault w of
        Some err \<Rightarrow> Inl err
      | None \<Rightarrow> Inr (rev (sort_key c_created_at (apps st))))"

text \<open>
  \<^verbatim>\<open>INSERT INTO apps (title, url, image, healthpath) VALUES ($1, $2, $3, $4) RETURNING *\<close>
  (line 84). The sequence is a 32-bit one and a value it has handed out is not given back
  when the row is refused.
\<close>

definition insert_app ::
  "world \<Rightarrow> string option \<Rightarrow> string option \<Rightarrow> string option \<Rightarrow> string option \<Rightarrow> store
     \<Rightarrow> (pg_error + app list) \<times> store" where
  "insert_app w t u i h st =
     (case fault w of
        Some err \<Rightarrow> (Inl err, st)
      | None \<Rightarrow>
          if 2147483647 \<le> apps_id_seq st then (Inl SequenceExhausted, st)
          else
            let n = apps_id_seq st + 1; st' = st\<lparr>apps_id_seq := n\<rparr> in
            (case t of
               None \<Rightarrow> (Inl (NotNullViolation ''title''), st')
             | Some tv \<Rightarrow>
                 (case u of
                    None \<Rightarrow> (Inl (NotNullViolation ''url''), st')
                  | Some uv \<Rightarrow>
                      if \<exists>r \<in> set (apps st). c_id r = n then (Inl (UniqueViolation n), st')
                      else
                        let r = \<lparr>c_id = n, c_title = tv, c_url = uv, c_image = i,
                                 c_healthpath = h, c_created_at = now w\<rparr>
                        in (Inr [r], st'\<lparr>apps := apps st @ [r]\<rparr>))))"

text \<open>
  \<^verbatim>\<open>UPDATE apps SET title = $1, url = $2, image = $3, healthpath = $4 WHERE id = $5 RETURNING *\<close>
  (line 98). The text of \<^verbatim>\<open>$5\<close> is read as an integer before any row is looked at; the
  \<^verbatim>\<open>NOT NULL\<close> columns are checked on the rows the statement would write.
\<close>

definition set_fields :: "string \<Rightarrow> string \<Rightarrow> string option \<Rightarrow> string option \<Rightarrow> app \<Rightarrow> app" where
  "set_fields tv uv i h r = r\<lparr>c_title := tv, c_url := uv, c_image := i, c_healthpath := h\<rparr>"

definition update_app ::
  "world \<Rightarrow> string option \<Rightarrow> string option \<Rightarrow> string option \<Rightarrow> string option \<Rightarrow> string
     \<Rightarrow> store \<Rightarrow> (pg_error + app list) \<times> store" where
  "update_app w t u i h idtxt st =
     (case fault w of
        Some err \<Rightarrow> (Inl err, st)
      | None \<Rightarrow>
          (case int4in w idtxt of
             None \<Rightarrow> (Inl (InvalidInteger idtxt), st)
           | Some k \<Rightarrow>
               if \<not> (\<exists>r \<in> set (apps st). c_id r = k) then (Inr [], st)
               else
                 (case t of
                    None \<Rightarrow> (Inl (NotNullViolation ''title''), st)
                  | Some tv \<Rightarrow>
                      (case u of
                         None \<Rightarrow> (Inl (NotNullViolation ''url''), st)
                       | Some uv \<Rightarrow>
                           (Inr (map (set_fields tv uv i h) (filter (\<lambda>r. c_id r = k) (apps st))),
                            st\<lparr>apps := map (\<lambda>r. if c_id r = k then set_fields tv uv i h r else r)
                                           (apps st)\<rparr>)))))"

text \<open>\<^verbatim>\<open>DELETE FROM apps WHERE id = $1 RETURNING *\<close> (line 113).\<close>

definition delete_app :: "world \<Rightarrow> string \<Rightarrow> store \<Rightarrow> (pg_error + app list) \<times> store" where
  "delete_app w idtxt st =
     (case fault w of
        Some err \<Rightarrow> (Inl err, st)
      | None \<Rightarrow>
          (case int4in w idtxt of
             None \<Rightarrow> (Inl (InvalidInteger idtxt), st)
           | Some k \<Rightarrow>
               (Inr (filter (\<lambda>r. c_id r = k) (apps st)),
                st\<lparr>apps := filter (\<lambda>r. c_id r \<noteq> k) (apps st)\<rparr>)))"

section \<open>Sessions, requests and the handlers\<close>

text \<open>
  The session middleware of lines 28 to 33 keeps one record per client. The model follows
  one client: \<open>None\<close> when the session store holds nothing for it, and then the
  middleware hands the handler a new, empty session (\<open>req_session\<close>). With
  \<^verbatim>\<open>saveUninitialized: false\<close> and \<^verbatim>\<open>resave: false\<close> only a session that a handler has
  written is stored.
\<close>

record session =
  authenticated :: bool
  user :: "string option"

definition req_session :: "session option \<Rightarrow> session" where
  "req_session stored =
     (case stored of None \<Rightarrow> \<lparr>authenticated = False, user = None\<rparr> | Some ss \<Rightarrow> ss)"

record server =
  sess :: "session option"
  db :: store

text \<open>A session is Authenticated when the store holds it with its flag set.\<close>

definition logged_in :: "server \<Rightarrow> bool" where
  "logged_in s = (case sess s of None \<Rightarrow> False | Some ss \<Rightarrow> authenticated ss)"

datatype route =
    GetApps
  | PostApps
  | PutApp string
  | DeleteApp string
  | ProxyHealth
  | GetLogin
  | PostLogin
  | GetLogout
  | GetAdmin
  | GetConfig
  | StaticFile string
  | Unrouted

text \<open>
  A request: its route (with the \<^verbatim>\<open>:id\<close> segment of the path; \<open>StaticFile f\<close> when the
  middleware of line 36 finds the file \<open>f\<close> in \<^verbatim>\<open>public/\<close>), its \<^verbatim>\<open>Accept\<close> header, the
  fields the handlers read from \<^verbatim>\<open>req.body\<close> and \<^verbatim>\<open>req.query.url\<close>.
\<close>

record request =
  route :: route
  accept :: "string option"
  b_title :: "string option"
  b_url :: "string option"
  b_image :: "string option"
  b_healthpath :: "string option"
  b_username :: "string option"
  b_password :: "string option"
  query_url :: "string option"

text \<open>
  \<^verbatim>\<open>String.prototype.startsWith\<close> and \<^verbatim>\<open>String.prototype.includes\<close> (\<open>includes\<close> is a
  keyword of Isabelle).
\<close>

fun startsWith :: "string \<Rightarrow> string \<Rightarrow> bool" where
  "startsWith hay [] = True"
| "startsWith [] (c # cs) = False"
| "startsWith (x # xs) (c # cs) = (x = c \<and> startsWith xs cs)"

fun includes_str :: "string \<Rightarrow> string \<Rightarrow> bool" where
  "includes_str [] needle = (needle = [])"
| "includes_str (x # xs) needle = (startsWith (x # xs) needle \<or> includes_str xs needle)"

text \<open>The messages of the source, byte for byte.\<close>

definition msg_unauthorized :: string where
  "msg_unauthorized =
     ''Yetkisiz eri'' @ [CHR 0xC5, CHR 0x9F] @ ''im. L'' @ [CHR 0xC3, CHR 0xBC]
       @ ''tfen giri'' @ [CHR 0xC5, CHR 0x9F] @ '' yap'' @ [CHR 0xC4, CHR 0xB1] @ ''n.''"

definition msg_not_found :: string where
  "msg_not_found = ''Uygulama bulunamad'' @ [CHR 0xC4, CHR 0xB1] @ ''.''"

definition msg_deleted :: string where
  "msg_deleted = ''Uygulama silindi.''"

definition msg_no_url :: string where
  "msg_no_url = ''Health URL belirtilmedi.''"

definition msg_health_failed :: string where
  "msg_health_failed =
     ''Health check ba'' @ [CHR 0xC5, CHR 0x9F] @ ''ar'' @ [CHR 0xC4, CHR 0xB1] @ ''s''
       @ [CHR 0xC4, CHR 0xB1] @ ''z.''"

definition msg_login_ok :: string where
  "msg_login_ok =
     ''Giri'' @ [CHR 0xC5, CHR 0x9F] @ '' ba'' @ [CHR 0xC5, CHR 0x9F] @ ''ar''
       @ [CHR 0xC4, CHR 0xB1] @ ''l'' @ [CHR 0xC4, CHR 0xB1] @ ''!''"

definition msg_login_bad :: string where
  "msg_login_bad = ''Ge'' @ [CHR 0xC3, CHR 0xA7] @ ''ersiz kimlik bilgileri.''"

definition msg_logout_failed :: string where
  "msg_logout_failed =
     [CHR 0xC3, CHR 0x87, CHR 0xC4, CHR 0xB1] @ ''k'' @ [CHR 0xC4, CHR 0xB1, CHR 0xC5, CHR 0x9F]
       @ '' yap'' @ [CHR 0xC4, CHR 0xB1] @ ''lamad'' @ [CHR 0xC4, CHR 0xB1] @ ''.''"

definition msg_logout_ok :: string where
  "msg_logout_ok =
     ''Ba'' @ [CHR 0xC5, CHR 0x9F] @ ''ar'' @ [CHR 0xC4, CHR 0xB1] @ ''yla ''
       @ [CHR 0xC3, CHR 0xA7, CHR 0xC4, CHR 0xB1] @ ''k'' @ [CHR 0xC4, CHR 0xB1, CHR 0xC5, CHR 0x9F]
       @ '' yap'' @ [CHR 0xC4, CHR 0xB1] @ ''ld'' @ [CHR 0xC4, CHR 0xB1] @ ''.''"

definition error_body :: "string \<Rightarrow> jsval" where
  "error_body m = JObj [(''error'', JStr m)]"

definition message_body :: "string \<Rightarrow> jsval" where
  "message_body m = JObj [(''message'', JStr m)]"

definition opt_json :: "string option \<Rightarrow> jsval" where
  "opt_json v = (case v of None \<Rightarrow> JNull | Some s \<Rightarrow> JStr s)"

text \<open>A row as \<^verbatim>\<open>res.json\<close> writes it; the driver hands \<^verbatim>\<open>created_at\<close> over as a date.\<close>

definition row_json :: "app \<Rightarrow> jsval" where
  "row_json r =
     JObj [(''id'', JNum (c_id r)), (''title'', JStr (c_title r)), (''url'', JStr (c_url r)),
           (''image'', opt_json (c_image r)), (''healthpath'', opt_json (c_healthpath r)),
           (''created_at'', JDate (c_created_at r))]"

text \<open>\<^verbatim>\<open>result.rows[0]\<close>, which is \<^verbatim>\<open>undefined\<close> when there is no row.\<close>

definition first_row :: "app list \<Rightarrow> jsval" where
  "first_row rs = (case rs of [] \<Rightarrow> JUndefined | r # rest \<Rightarrow> row_json r)"

text \<open>
  Lines 58 to 66. The middleware has set \<^verbatim>\<open>req.session\<close> on every request, and the flag
  is only ever written as \<^verbatim>\<open>true\<close>. \<open>next\<close> is the outcome of the handler behind this middleware.
\<close>

definition isAuthenticated ::
  "request \<Rightarrow> server \<Rightarrow> response \<times> server \<Rightarrow> response \<times> server" where
  "isAuthenticated req s next =
     (if authenticated (req_session (sess s)) then next
      else if (case accept req of None \<Rightarrow> False
               | Some a \<Rightarrow> a \<noteq> [] \<and> includes_str a ''application/json'')
      then (Json 401 (error_body msg_unauthorized), s)
      else (Redirect ''/login'', s))"

text \<open>Lines 70 to 77.\<close>

definition get_apps :: "world \<Rightarrow> server \<Rightarrow> response \<times> server" where
  "get_apps w s =
     (case select_all w (db s) of
        Inr rs \<Rightarrow> (Json 200 (JArr (map row_json rs)), s)
      | Inl err \<Rightarrow> (Json 500 (error_body (message w err)), s))"

text \<open>Lines 79 to 91, behind \<open>isAuthenticated\<close>.\<close>

definition post_apps :: "world \<Rightarrow> request \<Rightarrow> server \<Rightarrow> response \<times> server" where
  "post_apps w req s =
     (case insert_app w (b_title req) (b_url req) (b_image req) (b_healthpath req) (db s) of
        (Inr rs, st') \<Rightarrow> (Json 200 (first_row rs), s\<lparr>db := st'\<rparr>)
      | (Inl err, st') \<Rightarrow> (Json 500 (error_body (message w err)), s\<lparr>db := st'\<rparr>))"

text \<open>Lines 93 to 108, behind \<open>isAuthenticated\<close>.\<close>

definition put_app :: "world \<Rightarrow> string \<Rightarrow> request \<Rightarrow> server \<Rightarrow> response \<times> server" where
  "put_app w idtxt req s =
     (case update_app w (b_title req) (b_url req) (b_image req) (b_healthpath req) idtxt (db s) of
        (Inr rs, st') \<Rightarrow>
          if length rs = 0 then (Json 404 (error_body msg_not_found), s\<lparr>db := st'\<rparr>)
          else (Json 200 (first_row rs), s\<lparr>db := st'\<rparr>)
      | (Inl err, st') \<Rightarrow> (Json 500 (error_body (message w err)), s\<lparr>db := st'\<rparr>))"

text \<open>Lines 110 to 121, behind \<open>isAuthenticated\<close>.\<close>

definition delete_handler :: "world \<Rightarrow> string \<Rightarrow> server \<Rightarrow> response \<times> server" where
  "delete_handler w idtxt s =
     (case delete_app w idtxt (db s) of
        (Inr rs, st') \<Rightarrow>
          if length rs = 0 then (Json 404 (error_body msg_not_found), s\<lparr>db := st'\<rparr>)
          else (Json 200 (JObj [(''message'', JStr msg_deleted), (''removedApp'', first_row rs)]),
                s\<lparr>db := st'\<rparr>)
      | (Inl err, st') \<Rightarrow> (Json 500 (error_body (message w err)), s\<lparr>db := st'\<rparr>))"

text \<open>
  Lines 124 to 135. Only \<^verbatim>\<open>proxyRes.status\<close> is read from the answer. Both \<^verbatim>\<open>fetch\<close> and
  \<^verbatim>\<open>res.sendStatus\<close> are inside the \<^verbatim>\<open>try\<close>, so an error thrown by either is answered by
  the \<^verbatim>\<open>catch\<close>.
\<close>

definition proxy_health :: "world \<Rightarrow> request \<Rightarrow> server \<Rightarrow> response \<times> server" where
  "proxy_health w req s =
     (if falsy (query_url req) then (Json 400 (error_body msg_no_url), s)
      else
        (case fetch w (the (query_url req)) of
           Inr (code, body) \<Rightarrow>
             (case sendStatus_error w code of
                None \<Rightarrow> (SendStatus code, s)
              | Some m \<Rightarrow>
                  (Json 500 (JObj [(''error'', JStr msg_health_failed), (''details'', JStr m)]),
                   s))
         | Inl m \<Rightarrow>
             (Json 500 (JObj [(''error'', JStr msg_health_failed), (''details'', JStr m)]), s)))"

text \<open>
  Lines 143 to 152. \<^verbatim>\<open>===\<close> on values that are strings or \<^verbatim>\<open>undefined\<close> is equality.
\<close>

definition login :: "env \<Rightarrow> request \<Rightarrow> server \<Rightarrow> response \<times> server" where
  "login e req s =
     (if b_username req = ADMIN_USERNAME e \<and> b_password req = ADMIN_PASSWORD e
      then (Json 200 (message_body msg_login_ok),
            s\<lparr>sess := Some ((req_session (sess s))\<lparr>authenticated := True,
                                                   user := b_username req\<rparr>)\<rparr>)
      else (Json 401 (error_body msg_login_bad), s))"

text \<open>
  Lines 154 to 161. A destruction that fails has not removed the record of the session.
\<close>

definition logout :: "world \<Rightarrow> server \<Rightarrow> response \<times> server" where
  "logout w s =
     (if destroy_err w then (Json 500 (error_body msg_logout_failed), s)
      else (Json 200 (message_body msg_logout_ok), s\<lparr>sess := None\<rparr>))"

text \<open>Lines 169 to 174.\<close>

definition get_config :: "env \<Rightarrow> server \<Rightarrow> response \<times> server" where
  "get_config e s =
     (Json 200 (JObj [(''companyName'', JStr (or_else (COMPANY_NAME e) ''Default Company'')),
                      (''companyIcon'',
                       JStr (or_else (COMPANY_ICON_URL e) ''https://via.placeholder.com/40''))]),
      s)"

text \<open>The routes as the source registers them, \<open>isAuthenticated\<close> where the source puts it.\<close>

definition handle :: "env \<Rightarrow> world \<Rightarrow> request \<Rightarrow> server \<Rightarrow> response \<times> server" where
  "handle e w req s =
     (case route req of
        GetApps \<Rightarrow> get_apps w s
      | PostApps \<Rightarrow> isAuthenticated req s (post_apps w req s)
      | PutApp idtxt \<Rightarrow> isAuthenticated req s (put_app w idtxt req s)
      | DeleteApp idtxt \<Rightarrow> isAuthenticated req s (delete_handler w idtxt s)
      | ProxyHealth \<Rightarrow> proxy_health w req s
      | GetLogin \<Rightarrow> (SendFile [''public'', ''login.html''], s)
      | PostLogin \<Rightarrow> login e req s
      | GetLogout \<Rightarrow> logout w s
      | GetAdmin \<Rightarrow> isAuthenticated req s (SendFile [''views'', ''admin.html''], s)
      | GetConfig \<Rightarrow> get_config e s
      | StaticFile f \<Rightarrow> (SendFile [''public'', f], s)
      | Unrouted \<Rightarrow> (NotFound, s))"

section \<open>Runs of the server\<close>

text \<open>The \<^verbatim>\<open>id\<close> of the row a response carries, when the response is a row with status 200.\<close>

fun returned_id :: "response \<Rightarrow> int option" where
  "returned_id (Json n (JObj ((k, JNum i) # rest))) = (if n = 200 \<and> k = ''id'' then Some i else None)"
| "returned_id other = None"

text \<open>A run answers the requests one after the other, each in its own world.\<close>

fun run :: "env \<Rightarrow> (world \<times> request) list \<Rightarrow> server \<Rightarrow> server" where
  "run e [] s = s"
| "run e ((w, req) # evs) s = run e evs (snd (handle e w req s))"

text \<open>The ids that the creates of a run have returned, in the order of the run.\<close>

fun created_ids :: "env \<Rightarrow> (world \<times> request) list \<Rightarrow> server \<Rightarrow> int list" where
  "created_ids e [] s = []"
| "created_ids e ((w, req) # evs) s =
     (if route req = PostApps
      then (case returned_id (fst (handle e w req s)) of Some i \<Rightarrow> [i] | None \<Rightarrow> [])
      else [])
     @ created_ids e evs (snd (handle e w req s))"

text \<open>The ids of the table are distinct and none is beyond the sequence.\<close>

definition ids_ok :: "store \<Rightarrow> bool" where
  "ids_ok st \<longleftrightarrow> distinct (map c_id (apps st)) \<and> (\<forall>r \<in> set (apps st). c_id r \<le> apps_id_seq st)"

section \<open>Sample inputs\<close>

text \<open>
  Concrete inputs on which the theorems below are instantiated. \<open>decimal\<close> reads an
  unsigned decimal numeral and stands for the store's integer input there.
\<close>

fun digits :: "string \<Rightarrow> nat \<Rightarrow> nat option" where
  "digits [] acc = Some acc"
| "digits (c # cs) acc =
     (if 48 \<le> (of_char c :: nat) \<and> (of_char c :: nat) \<le> 57
      then digits cs (10 * acc + (of_char c - 48)) else None)"

definition decimal :: "string \<Rightarrow> int option" where
  "decimal s = (if s = [] then None else map_option int (digits s 0))"

fun sample_message :: "pg_error \<Rightarrow> string" where
  "sample_message (StoreFailure m) = m"
| "sample_message (InvalidInteger t) = ''invalid input syntax for type integer: '' @ t"
| "sample_message (NotNullViolation c) = ''null value in column '' @ c"
| "sample_message SequenceExhausted = ''nextval: reached maximum value of sequence''"
| "sample_message (UniqueViolation n) = ''duplicate key value violates unique constraint''"

definition sample_fetch :: "string \<Rightarrow> string + (nat \<times> string)" where
  "sample_fetch u =
     (if u = ''http://up.example/health'' then Inr (503, ''maintenance'')
      else if u = ''http://odd.example/'' then Inr (99, ''odd'')
      else Inl ''getaddrinfo ENOTFOUND'')"

definition sample_sendStatus_error :: "nat \<Rightarrow> string option" where
  "sample_sendStatus_error code =
     (if code < 100 \<or> 999 < code then Some ''Invalid status code'' else None)"

definition env0 :: env where
  "env0 = \<lparr>DATABASE_URL = Some ''postgres://db/apps'', SESSION_SECRET = Some ''s3cret'',
           ADMIN_USERNAME = Some ''admin'', ADMIN_PASSWORD = Some ''hunter2'',
           COMPANY_NAME = None, COMPANY_ICON_URL = None\<rparr>"

definition env_empty_password :: env where
  "env_empty_password = env0\<lparr>ADMIN_PASSWORD := Some []\<rparr>"

definition world0 :: world where
  "world0 = \<lparr>int4in = decimal, message = sample_message, fault = None, called_at = 990,
             now = 1000, fetch = sample_fetch, sendStatus_error = sample_sendStatus_error,
             destroy_err = False\<rparr>"

text \<open>A store whose \<^verbatim>\<open>CURRENT_TIMESTAMP\<close> the server reads nine hours (32400 s) back.\<close>

definition world_skew :: world where
  "world_skew = world0\<lparr>called_at := 40000, now := 7600\<rparr>"

definition row_skew :: app where
  "row_skew = \<lparr>c_id = 1, c_title = ''Git'', c_url = ''http://git.example'', c_image = None,
               c_healthpath = None, c_created_at = 7600\<rparr>"

definition world_down :: world where
  "world_down = world0\<lparr>fault := Some (StoreFailure ''connect ECONNREFUSED'')\<rparr>"

definition req0 :: request where
  "req0 = \<lparr>route = Unrouted, accept = None, b_title = None, b_url = None, b_image = None,
           b_healthpath = None, b_username = None, b_password = None, query_url = None\<rparr>"

definition row1 :: app where
  "row1 = \<lparr>c_id = 1, c_title = ''Wiki'', c_url = ''http://wiki.example'', c_image = None,
           c_healthpath = Some ''http://wiki.example/health'', c_created_at = 900\<rparr>"

definition store1 :: store where
  "store1 = \<lparr>apps = [row1], apps_id_seq = 1\<rparr>"

definition guest :: server where
  "guest = \<lparr>sess = None, db = store1\<rparr>"

definition admin :: server where
  "admin = \<lparr>sess = Some \<lparr>authenticated = True, user = Some ''admin''\<rparr>, db = store1\<rparr>"

definition req_create :: request where
  "req_create = req0\<lparr>route := PostApps, b_title := Some ''Git'', b_url := Some ''http://git.example''\<rparr>"

definition req_list :: request where
  "req_list = req0\<lparr>route := GetApps\<rparr>"

definition req_update :: request where
  "req_update = req0\<lparr>route := PutApp ''1'', b_title := Some ''Wiki 2'', b_url := Some ''http://wiki2.example'',
                   b_image := Some ''wiki.png''\<rparr>"

definition req_update_9 :: request where
  "req_update_9 = req_update\<lparr>route := PutApp ''9''\<rparr>"

definition req_delete :: request where
  "req_delete = req0\<lparr>route := DeleteApp ''1''\<rparr>"

definition req_delete_9 :: request where
  "req_delete_9 = req0\<lparr>route := DeleteApp ''9''\<rparr>"

definition req_update_abc :: request where
  "req_update_abc = req_update\<lparr>route := PutApp ''abc''\<rparr>"

definition req_delete_abc :: request where
  "req_delete_abc = req0\<lparr>route := DeleteApp ''abc''\<rparr>"

definition req_empty_url :: request where
  "req_empty_url = req0\<lparr>route := ProxyHealth, query_url := Some []\<rparr>"

definition req_probe :: request where
  "req_probe = req0\<lparr>route := ProxyHealth, query_url := Some ''http://up.example/health''\<rparr>"

definition req_probe_down :: request where
  "req_probe_down = req0\<lparr>route := ProxyHealth, query_url := Some ''http://down.example/''\<rparr>"

definition req_probe_odd :: request where
  "req_probe_odd = req0\<lparr>route := ProxyHealth, query_url := Some ''http://odd.example/''\<rparr>"

definition admin_fresh :: server where
  "admin_fresh = \<lparr>sess = Some \<lparr>authenticated = True, user = Some ''admin''\<rparr>, db = fresh_store\<rparr>"

definition two_creates :: "(world \<times> request) list" where
  "two_creates = [(world0, req_create), (world0, req_delete), (world0, req_create)]"

section \<open>Startup\<close>

lemma falsy_iff: "falsy v \<longleftrightarrow> v = None \<or> v = Some []"
  by (cases v) (simp_all add: falsy_def)

text \<open>
  C7, as stated, fails: with all four variables present and the admin password set to
  the empty string, the process exits with code 1.
\<close>

theorem C7_empty_value_counterexample:
  "DATABASE_URL env_empty_password \<noteq> None \<and> SESSION_SECRET env_empty_password \<noteq> None
   \<and> ADMIN_USERNAME env_empty_password \<noteq> None \<and> ADMIN_PASSWORD env_empty_password \<noteq> None
   \<and> startup env_empty_password = Exit 1"
  by (simp add: env_empty_password_def env0_def startup_def falsy_def)

text \<open>
  C7, amended: if any of the four required configuration values (database connection
  string, session-signing secret, admin username, admin password) is absent or is the
  empty string at startup, the process exits with code 1; if all four are present and not
  empty, startup proceeds.
\<close>

theorem C7_startup:
  "((\<exists>v \<in> {DATABASE_URL e, SESSION_SECRET e, ADMIN_USERNAME e, ADMIN_PASSWORD e}.
        v = None \<or> v = Some []) \<longrightarrow> startup e = Exit 1)
   \<and> ((\<forall>v \<in> {DATABASE_URL e, SESSION_SECRET e, ADMIN_USERNAME e, ADMIN_PASSWORD e}.
        \<exists>t. v = Some t \<and> t \<noteq> []) \<longrightarrow> startup e = Started)"
  by (auto simp: startup_def falsy_iff)

theorem C7_startup_witness:
  "ADMIN_PASSWORD env_empty_password = Some [] \<and> startup env_empty_password = Exit 1
   \<and> DATABASE_URL env0 = Some ''postgres://db/apps'' \<and> SESSION_SECRET env0 = Some ''s3cret''
   \<and> ADMIN_USERNAME env0 = Some ''admin'' \<and> ADMIN_PASSWORD env0 = Some ''hunter2''
   \<and> startup env0 = Started"
proof -
  have a: "\<exists>v \<in> {DATABASE_URL env_empty_password, SESSION_SECRET env_empty_password,
            ADMIN_USERNAME env_empty_password, ADMIN_PASSWORD env_empty_password}.
       v = None \<or> v = Some []"
    by (simp add: env_empty_password_def env0_def)
  have b: "\<forall>v \<in> {DATABASE_URL env0, SESSION_SECRET env0, ADMIN_USERNAME env0, ADMIN_PASSWORD env0}.
       \<exists>t. v = Some t \<and> t \<noteq> []"
    by (simp add: env0_def)
  have c: "startup env_empty_password = Exit 1"
    using a C7_startup [of env_empty_password] by blast
  have d: "startup env0 = Started"
    using b C7_startup [of env0] by blast
  from c d show ?thesis
    by (simp add: env_empty_password_def env0_def)
qed

section \<open>Authentication and the sessions\<close>

lemma startsWith_iff: "startsWith hay needle \<longleftrightarrow> (\<exists>q. hay = needle @ q)"
  by (induction hay needle rule: startsWith.induct) auto

lemma includes_str_iff: "includes_str hay needle \<longleftrightarrow> (\<exists>p q. hay = p @ needle @ q)"
proof (induction hay)
  case Nil
  then show ?case by auto
next
  case (Cons x xs)
  show ?case
  proof
    assume "includes_str (x # xs) needle"
    then consider "startsWith (x # xs) needle" | "includes_str xs needle" by auto
    then show "\<exists>p q. x # xs = p @ needle @ q"
    proof cases
      case 1
      then obtain q where "x # xs = needle @ q" by (auto simp: startsWith_iff)
      then have "x # xs = [] @ needle @ q" by simp
      then show ?thesis by blast
    next
      case 2
      then obtain p q where "xs = p @ needle @ q" using Cons.IH by blast
      then have "x # xs = (x # p) @ needle @ q" by simp
      then show ?thesis by blast
    qed
  next
    assume "\<exists>p q. x # xs = p @ needle @ q"
    then obtain p q where pq: "x # xs = p @ needle @ q" by blast
    show "includes_str (x # xs) needle"
    proof (cases p)
      case Nil
      with pq have "startsWith (x # xs) needle" by (auto simp: startsWith_iff)
      then show ?thesis by simp
    next
      case (Cons y ys)
      with pq have "xs = ys @ needle @ q" by simp
      then have "includes_str xs needle" using Cons.IH by blast
      then show ?thesis by simp
    qed
  qed
qed

lemma req_session_auth: "authenticated (req_session (sess s)) = logged_in s"
  by (simp add: req_session_def logged_in_def split: option.splits)

text \<open>
  C1: for every request to a guarded route (create, update or delete an app, the admin
  page): if the session of the request is Authenticated, the outcome is that of the
  handler of the route; if it is not and the \<^verbatim>\<open>Accept\<close> header is present and contains
  \<^verbatim>\<open>application/json\<close>, the response is 401 with a JSON error body and nothing changes;
  otherwise the response is a redirect to \<^verbatim>\<open>/login\<close> and nothing changes.
\<close>

theorem C1_auth_gate:
  assumes "route req = PostApps \<or> route req = PutApp idtxt \<or> route req = DeleteApp idtxt
           \<or> route req = GetAdmin"
  shows "handle e w req s =
     (if logged_in s then
        (case route req of
           PostApps \<Rightarrow> post_apps w req s
         | PutApp i \<Rightarrow> put_app w i req s
         | DeleteApp i \<Rightarrow> delete_handler w i s
         | other \<Rightarrow> (SendFile [''views'', ''admin.html''], s))
      else if \<exists>a p q. accept req = Some a \<and> a = p @ ''application/json'' @ q
      then (Json 401 (error_body msg_unauthorized), s)
      else (Redirect ''/login'', s))"
proof -
  have acc: "(case accept req of None \<Rightarrow> False
               | Some a \<Rightarrow> a \<noteq> [] \<and> includes_str a ''application/json'')
             \<longleftrightarrow> (\<exists>a p q. accept req = Some a \<and> a = p @ ''application/json'' @ q)"
    by (cases "accept req") (auto simp: includes_str_iff)
  from assms show ?thesis
    unfolding handle_def isAuthenticated_def req_session_auth acc
    by (auto split: route.splits)
qed


theorem C1_auth_gate_witness:
  "handle env0 world0 (req0\<lparr>route := GetAdmin, accept := Some ''text/html, application/json''\<rparr>) guest
     = (Json 401 (error_body msg_unauthorized), guest)
   \<and> handle env0 world0 (req0\<lparr>route := DeleteApp ''1'', accept := Some ''text/html''\<rparr>) guest
     = (Redirect ''/login'', guest)
   \<and> handle env0 world0 (req0\<lparr>route := GetAdmin\<rparr>) admin
     = (SendFile [''views'', ''admin.html''], admin)"
proof -
  let ?r1 = "req0\<lparr>route := GetAdmin, accept := Some ''text/html, application/json''\<rparr>"
  let ?r2 = "req0\<lparr>route := DeleteApp ''1'', accept := Some ''text/html''\<rparr>"
  let ?r3 = "req0\<lparr>route := GetAdmin\<rparr>"
  have g: "\<not> logged_in guest" and a: "logged_in admin"
    by (simp_all add: logged_in_def guest_def admin_def)
  have "''text/html, application/json'' = ''text/html, '' @ ''application/json'' @ []"
    by simp
  then have j1: "\<exists>a p q. accept ?r1 = Some a \<and> a = p @ ''application/json'' @ q"
    by (intro exI [of _ "''text/html, application/json''"] exI [of _ "''text/html, ''"]
          exI [of _ "[]"]) simp
  have "\<not> includes_str ''text/html'' ''application/json''"
    by simp
  then have j2: "\<not> (\<exists>a p q. accept ?r2 = Some a \<and> a = p @ ''application/json'' @ q)"
    by (simp add: includes_str_iff)
  have "handle env0 world0 ?r1 guest = (Json 401 (error_body msg_unauthorized), guest)"
    using C1_auth_gate [of ?r1 "''1''" env0 world0 guest] g j1 by simp
  moreover have "handle env0 world0 ?r2 guest = (Redirect ''/login'', guest)"
    using C1_auth_gate [of ?r2 "''1''" env0 world0 guest] g j2 by simp
  moreover have "handle env0 world0 ?r3 admin = (SendFile [''views'', ''admin.html''], admin)"
    using C1_auth_gate [of ?r3 "''1''" env0 world0 admin] a by simp
  ultimately show ?thesis by simp
qed

lemma isAuthenticated_sess:
  "sess (snd next) = sess s \<Longrightarrow> sess (snd (isAuthenticated req s next)) = sess s"
  by (simp add: isAuthenticated_def)

lemma post_apps_sess: "sess (snd (post_apps w req s)) = sess s"
  by (simp add: post_apps_def split: sum.splits prod.splits)

lemma put_app_sess: "sess (snd (put_app w idtxt req s)) = sess s"
  by (simp add: put_app_def split: sum.splits prod.splits)

lemma delete_handler_sess: "sess (snd (delete_handler w idtxt s)) = sess s"
  by (simp add: delete_handler_def split: sum.splits prod.splits)

lemma handle_keeps_sess:
  assumes "route req \<noteq> PostLogin" and "route req \<noteq> GetLogout"
  shows "sess (snd (handle e w req s)) = sess s"
proof (cases "route req")
  case GetApps
  then show ?thesis by (simp add: handle_def get_apps_def split: sum.splits)
next
  case PostApps
  then show ?thesis by (simp add: handle_def isAuthenticated_sess post_apps_sess)
next
  case (PutApp idtxt)
  then show ?thesis by (simp add: handle_def isAuthenticated_sess put_app_sess)
next
  case (DeleteApp idtxt)
  then show ?thesis by (simp add: handle_def isAuthenticated_sess delete_handler_sess)
next
  case ProxyHealth
  then show ?thesis
    by (simp add: handle_def proxy_health_def split: sum.splits prod.splits option.splits)
next
  case GetAdmin
  then show ?thesis by (simp add: handle_def isAuthenticated_sess)
next
  case GetConfig
  then show ?thesis by (simp add: handle_def get_config_def)
next
  case GetLogin
  then show ?thesis by (simp add: handle_def)
next
  case (StaticFile f)
  then show ?thesis by (simp add: handle_def)
next
  case Unrouted
  then show ?thesis by (simp add: handle_def)
next
  case PostLogin
  with assms show ?thesis by simp
next
  case GetLogout
  with assms show ?thesis by simp
qed

text \<open>
  C2: the state machine of a session. A login whose username and password both equal the
  configured admin pair answers 200 with the success message and leaves the session
  Authenticated with the username recorded; any other login answers 401 with an error
  message and leaves the server, and so the state of the session, as it was; a logout whose
  destruction of the session does not fail answers 200 and leaves no session, hence
  Unauthenticated; no other request changes the session.
\<close>

theorem C2_session_state_machine:
  "(route req = PostLogin \<and> b_username req = ADMIN_USERNAME e \<and> b_password req = ADMIN_PASSWORD e
      \<longrightarrow> fst (handle e w req s) = Json 200 (message_body msg_login_ok)
          \<and> logged_in (snd (handle e w req s))
          \<and> (\<exists>ss. sess (snd (handle e w req s)) = Some ss \<and> user ss = b_username req))
   \<and> (route req = PostLogin \<and> \<not> (b_username req = ADMIN_USERNAME e \<and> b_password req = ADMIN_PASSWORD e)
      \<longrightarrow> handle e w req s = (Json 401 (error_body msg_login_bad), s))
   \<and> (route req = GetLogout \<and> \<not> destroy_err w
      \<longrightarrow> fst (handle e w req s) = Json 200 (message_body msg_logout_ok)
          \<and> sess (snd (handle e w req s)) = None
          \<and> \<not> logged_in (snd (handle e w req s)))
   \<and> (route req \<noteq> PostLogin \<and> \<not> (route req = GetLogout \<and> \<not> destroy_err w)
      \<longrightarrow> sess (snd (handle e w req s)) = sess s)"
proof (intro conjI impI)
  assume "route req \<noteq> PostLogin \<and> \<not> (route req = GetLogout \<and> \<not> destroy_err w)"
  then show "sess (snd (handle e w req s)) = sess s"
  proof (cases "route req = GetLogout")
    case True
    with \<open>route req \<noteq> PostLogin \<and> \<not> (route req = GetLogout \<and> \<not> destroy_err w)\<close>
    show ?thesis by (simp add: handle_def logout_def)
  next
    case False
    with \<open>route req \<noteq> PostLogin \<and> \<not> (route req = GetLogout \<and> \<not> destroy_err w)\<close>
    show ?thesis by (simp add: handle_keeps_sess)
  qed
qed (auto simp: handle_def login_def logout_def logged_in_def)


theorem C2_session_state_machine_witness:
  "fst (handle env0 world0
          (req0\<lparr>route := PostLogin, b_username := Some ''admin'', b_password := Some ''hunter2''\<rparr>)
          guest) = Json 200 (message_body msg_login_ok)
   \<and> logged_in (snd (handle env0 world0
          (req0\<lparr>route := PostLogin, b_username := Some ''admin'', b_password := Some ''hunter2''\<rparr>)
          guest))
   \<and> handle env0 world0
          (req0\<lparr>route := PostLogin, b_username := Some ''admin'', b_password := Some ''wrong''\<rparr>)
          guest = (Json 401 (error_body msg_login_bad), guest)
   \<and> sess (snd (handle env0 world0 (req0\<lparr>route := GetLogout\<rparr>) admin)) = None
   \<and> sess (snd (handle env0 world0 (req0\<lparr>route := GetApps\<rparr>) admin)) = sess admin"
proof -
  let ?ok = "req0\<lparr>route := PostLogin, b_username := Some ''admin'', b_password := Some ''hunter2''\<rparr>"
  let ?bad = "req0\<lparr>route := PostLogin, b_username := Some ''admin'', b_password := Some ''wrong''\<rparr>"
  have 1: "route ?ok = PostLogin \<and> b_username ?ok = ADMIN_USERNAME env0
           \<and> b_password ?ok = ADMIN_PASSWORD env0"
    by (simp add: env0_def)
  have 2: "route ?bad = PostLogin \<and> \<not> (b_username ?bad = ADMIN_USERNAME env0
           \<and> b_password ?bad = ADMIN_PASSWORD env0)"
    by (simp add: env0_def)
  have 3: "route (req0\<lparr>route := GetLogout\<rparr>) = GetLogout \<and> \<not> destroy_err world0"
    by (simp add: world0_def)
  have 4: "route (req0\<lparr>route := GetApps\<rparr>) \<noteq> PostLogin
           \<and> \<not> (route (req0\<lparr>route := GetApps\<rparr>) = GetLogout \<and> \<not> destroy_err world0)"
    by simp
  from 1 C2_session_state_machine [of ?ok env0 world0 guest]
  have a: "fst (handle env0 world0 ?ok guest) = Json 200 (message_body msg_login_ok)
           \<and> logged_in (snd (handle env0 world0 ?ok guest))"
    by blast
  from 2 C2_session_state_machine [of ?bad env0 world0 guest]
  have b: "handle env0 world0 ?bad guest = (Json 401 (error_body msg_login_bad), guest)"
    by blast
  from 3 C2_session_state_machine [of "req0\<lparr>route := GetLogout\<rparr>" env0 world0 admin]
  have c: "sess (snd (handle env0 world0 (req0\<lparr>route := GetLogout\<rparr>) admin)) = None"
    by blast
  from 4 C2_session_state_machine [of "req0\<lparr>route := GetApps\<rparr>" env0 world0 admin]
  have d: "sess (snd (handle env0 world0 (req0\<lparr>route := GetApps\<rparr>) admin)) = sess admin"
    by blast
  from a b c d show ?thesis by blast
qed

section \<open>Create, list and update\<close>

lemma select_all_sorted:
  assumes "select_all w st = Inr rs"
  shows "sorted_wrt (\<lambda>a b. c_created_at b \<le> c_created_at a) rs \<and> set rs = set (apps st)"
proof -
  from assms have rs: "rs = rev (sort_key c_created_at (apps st))"
    by (simp add: select_all_def split: option.splits)
  have "sorted (map c_created_at (sort_key c_created_at (apps st)))"
    by (rule sorted_sort_key)
  then have "sorted_wrt (\<lambda>a b. c_created_at a \<le> c_created_at b) (sort_key c_created_at (apps st))"
    by (simp add: sorted_map)
  then have "sorted_wrt (\<lambda>a b. c_created_at b \<le> c_created_at a) rs"
    by (simp add: rs sorted_wrt_rev)
  then show ?thesis by (simp add: rs)
qed

lemma insert_app_Inr:
  assumes "insert_app w t u i h st = (Inr rs, st')"
  shows "\<exists>tv uv. t = Some tv \<and> u = Some uv
           \<and> rs = [\<lparr>c_id = apps_id_seq st + 1, c_title = tv, c_url = uv, c_image = i,
                     c_healthpath = h, c_created_at = now w\<rparr>]
           \<and> apps st' = apps st @ rs \<and> apps_id_seq st' = apps_id_seq st + 1"
  using assms
  by (auto simp: insert_app_def Let_def split: option.splits if_splits)

lemma insert_app_ok:
  assumes "fault w = None" and "apps_id_seq st < 2147483647"
    and "\<forall>r \<in> set (apps st). c_id r \<le> apps_id_seq st"
  shows "\<exists>rs st'. insert_app w (Some tv) (Some uv) i h st = (Inr rs, st')"
  using assms by (fastforce simp: insert_app_def Let_def)

lemma authenticated_passes: "logged_in s \<Longrightarrow> isAuthenticated req s next = next"
  by (simp add: isAuthenticated_def req_session_auth)

text \<open>
  C3, as stated, fails: \<^verbatim>\<open>created_at\<close> is the \<^verbatim>\<open>CURRENT_TIMESTAMP\<close> of the store as the
  server reads it back, and the program relates it to no clock of its own. On an empty
  table, with a store whose timestamps the server reads nine hours back, the create
  succeeds and the list that follows holds one entry, the created one, whose
  \<^verbatim>\<open>created_at\<close> is earlier than the instant of the call.
\<close>

theorem C3_clock_counterexample:
  "handle env0 world_skew req_create admin_fresh
     = (Json 200 (row_json row_skew), admin_fresh\<lparr>db := \<lparr>apps = [row_skew], apps_id_seq = 1\<rparr>\<rparr>)
   \<and> fst (handle env0 world_skew req_list (snd (handle env0 world_skew req_create admin_fresh)))
     = Json 200 (JArr [row_json row_skew])
   \<and> c_created_at row_skew < called_at world_skew"
  by (simp add: handle_def isAuthenticated_def req_session_def req_create_def req_list_def
        req0_def post_apps_def insert_app_def get_apps_def select_all_def Let_def world_skew_def
        world0_def admin_fresh_def fresh_store_def row_skew_def first_row_def)

text \<open>
  C3, amended: after a create by an authenticated session that succeeds (status 200) with
  the fields (T, U, I, H), a list that the store answers returns an array with an entry
  that is the row the create returned, has exactly those four field values and has as
  \<^verbatim>\<open>created_at\<close> the \<^verbatim>\<open>CURRENT_TIMESTAMP\<close> of the store at the insert, as the server reads
  it back; the array is in descending order of \<^verbatim>\<open>created_at\<close>.
\<close>

theorem C3_create_then_list:
  assumes auth: "logged_in s"
    and create: "route req = PostApps"
    and ok: "status (fst (handle e w req s)) = 200"
    and list: "route req' = GetApps"
    and up: "fault w' = None"
  shows "\<exists>rs r. fst (handle e w' req' (snd (handle e w req s))) = Json 200 (JArr (map row_json rs))
           \<and> r \<in> set rs
           \<and> fst (handle e w req s) = Json 200 (row_json r)
           \<and> b_title req = Some (c_title r) \<and> b_url req = Some (c_url r)
           \<and> b_image req = c_image r \<and> b_healthpath req = c_healthpath r
           \<and> c_created_at r = now w
           \<and> sorted_wrt (\<lambda>a b. c_created_at b \<le> c_created_at a) rs"
proof -
  have h: "handle e w req s = post_apps w req s"
    using auth create by (simp add: handle_def authenticated_passes)
  obtain res st' where ins:
    "insert_app w (b_title req) (b_url req) (b_image req) (b_healthpath req) (db s) = (res, st')"
    by (cases "insert_app w (b_title req) (b_url req) (b_image req) (b_healthpath req) (db s)")
  with ok h obtain created where res: "res = Inr created"
    by (cases res) (auto simp: post_apps_def)
  from insert_app_Inr [OF ins [unfolded res]] obtain tv uv where
    t: "b_title req = Some tv" and u: "b_url req = Some uv"
    and cr: "created = [\<lparr>c_id = apps_id_seq (db s) + 1, c_title = tv, c_url = uv,
               c_image = b_image req, c_healthpath = b_healthpath req, c_created_at = now w\<rparr>]"
    and ap: "apps st' = apps (db s) @ created"
    by blast
  define r where "r = \<lparr>c_id = apps_id_seq (db s) + 1, c_title = tv, c_url = uv,
               c_image = b_image req, c_healthpath = b_healthpath req, c_created_at = now w\<rparr>"
  have post: "handle e w req s = (Json 200 (row_json r), s\<lparr>db := st'\<rparr>)"
    using h ins res cr by (simp add: post_apps_def first_row_def r_def)
  define rs where "rs = rev (sort_key c_created_at (apps st'))"
  have sel: "select_all w' st' = Inr rs"
    using up by (simp add: select_all_def rs_def)
  have get: "fst (handle e w' req' (s\<lparr>db := st'\<rparr>)) = Json 200 (JArr (map row_json rs))"
    using list sel by (simp add: handle_def get_apps_def)
  have mem: "r \<in> set rs"
    using select_all_sorted [OF sel] ap cr by (simp add: r_def)
  have srt: "sorted_wrt (\<lambda>a b. c_created_at b \<le> c_created_at a) rs"
    using select_all_sorted [OF sel] by simp
  have flds: "b_title req = Some (c_title r) \<and> b_url req = Some (c_url r)
           \<and> b_image req = c_image r \<and> b_healthpath req = c_healthpath r
           \<and> c_created_at r = now w"
    using t u by (simp add: r_def)
  from post get mem srt flds show ?thesis
    by (intro exI [of _ rs] exI [of _ r]) simp
qed


lemma logged_in_admin: "logged_in admin"
  by (simp add: logged_in_def admin_def)

lemma create_admin:
  "handle env0 world0 req_create admin
     = (Json 200 (row_json \<lparr>c_id = 2, c_title = ''Git'', c_url = ''http://git.example'',
                            c_image = None, c_healthpath = None, c_created_at = 1000\<rparr>),
        admin\<lparr>db := \<lparr>apps = [row1, \<lparr>c_id = 2, c_title = ''Git'', c_url = ''http://git.example'',
                            c_image = None, c_healthpath = None, c_created_at = 1000\<rparr>],
                      apps_id_seq = 2\<rparr>\<rparr>)"
  by (simp add: handle_def isAuthenticated_def req_session_def req_create_def req0_def
        post_apps_def insert_app_def Let_def world0_def admin_def store1_def row1_def
        first_row_def)

theorem C3_create_then_list_witness:
  "status (fst (handle env0 world0 req_create admin)) = 200
   \<and> (\<exists>rs r. fst (handle env0 world0 req_list (snd (handle env0 world0 req_create admin)))
                 = Json 200 (JArr (map row_json rs))
        \<and> r \<in> set rs \<and> b_title req_create = Some (c_title r) \<and> c_created_at r = 1000
        \<and> sorted_wrt (\<lambda>a b. c_created_at b \<le> c_created_at a) rs)"
proof -
  have ok: "status (fst (handle env0 world0 req_create admin)) = 200"
    by (simp add: create_admin)
  have r: "route req_create = PostApps" "route req_list = GetApps"
    by (simp_all add: req_create_def req_list_def)
  have w: "fault world0 = None" "now world0 = 1000"
    by (simp_all add: world0_def)
  from C3_create_then_list [OF logged_in_admin r(1) ok r(2) w(1)]
  have "\<exists>rs r. fst (handle env0 world0 req_list (snd (handle env0 world0 req_create admin)))
                 = Json 200 (JArr (map row_json rs))
        \<and> r \<in> set rs \<and> b_title req_create = Some (c_title r) \<and> c_created_at r = now world0
        \<and> sorted_wrt (\<lambda>a b. c_created_at b \<le> c_created_at a) rs"
    by blast
  with ok show ?thesis by (simp only: w(2))
qed

lemma update_app_keeps:
  "map c_id (apps (snd (update_app w t u i h idtxt st))) = map c_id (apps st)
   \<and> map c_created_at (apps (snd (update_app w t u i h idtxt st))) = map c_created_at (apps st)
   \<and> apps_id_seq (snd (update_app w t u i h idtxt st)) = apps_id_seq st"
  by (auto simp: update_app_def set_fields_def split: option.splits)

lemma same_row:
  "\<exists>tv uv i h. (r::app) = r\<lparr>c_title := tv, c_url := uv, c_image := i, c_healthpath := h\<rparr>"
  by (intro exI [of _ "c_title r"] exI [of _ "c_url r"] exI [of _ "c_image r"]
        exI [of _ "c_healthpath r"]) simp

lemma update_app_rows:
  "list_all2 (\<lambda>old new. \<exists>tv uv i h.
       new = old\<lparr>c_title := tv, c_url := uv, c_image := i, c_healthpath := h\<rparr>)
     (apps st) (apps (snd (update_app w t u i h idtxt st)))"
proof -
  have same: "list_all2 (\<lambda>old new. \<exists>tv uv i h.
       new = old\<lparr>c_title := tv, c_url := uv, c_image := i, c_healthpath := h\<rparr>) xs xs" for xs :: "app list"
    by (simp add: list_all2_same same_row)
  have upd: "list_all2 (\<lambda>old new. \<exists>tv uv i h.
       new = old\<lparr>c_title := tv, c_url := uv, c_image := i, c_healthpath := h\<rparr>) xs
       (map (\<lambda>r. if c_id r = k then set_fields tv uv i h r else r) xs)"
    for xs :: "app list" and k tv uv
    unfolding list_all2_map2 list_all2_same
    by (auto simp: set_fields_def same_row)
  show ?thesis
    by (auto simp: update_app_def same upd split: option.splits)
qed

lemma put_app_db:
  "db (snd (put_app w idtxt req s))
     = snd (update_app w (b_title req) (b_url req) (b_image req) (b_healthpath req) idtxt (db s))"
  by (simp add: put_app_def split: prod.splits sum.splits)

lemma put_route_db:
  assumes "route req = PutApp idtxt"
  shows "db (snd (handle e w req s)) = db s
         \<or> db (snd (handle e w req s))
             = snd (update_app w (b_title req) (b_url req) (b_image req) (b_healthpath req) idtxt (db s))"
  using assms by (simp add: handle_def isAuthenticated_def put_app_db)

text \<open>
  C8: an update request leaves the \<^verbatim>\<open>id\<close> and the \<^verbatim>\<open>created_at\<close> of every row as they
  were, row by row; each row after the request is the row before it with at most
  \<^verbatim>\<open>title\<close>, \<^verbatim>\<open>url\<close>, \<^verbatim>\<open>image\<close> and \<^verbatim>\<open>healthpath\<close> written.
\<close>

theorem C8_update_frame:
  assumes "route req = PutApp idtxt"
  shows "map c_id (apps (db (snd (handle e w req s)))) = map c_id (apps (db s))
         \<and> map c_created_at (apps (db (snd (handle e w req s)))) = map c_created_at (apps (db s))
         \<and> list_all2 (\<lambda>old new. \<exists>tv uv i h.
               new = old\<lparr>c_title := tv, c_url := uv, c_image := i, c_healthpath := h\<rparr>)
             (apps (db s)) (apps (db (snd (handle e w req s))))"
proof -
  from put_route_db [OF assms, of e w s] show ?thesis
  proof
    assume "db (snd (handle e w req s)) = db s"
    then show ?thesis by (simp add: list_all2_same same_row)
  next
    assume "db (snd (handle e w req s))
             = snd (update_app w (b_title req) (b_url req) (b_image req) (b_healthpath req) idtxt (db s))"
    then show ?thesis by (simp add: update_app_keeps update_app_rows)
  qed
qed

lemma update_admin:
  "handle env0 world0 req_update admin
     = (Json 200 (row_json \<lparr>c_id = 1, c_title = ''Wiki 2'', c_url = ''http://wiki2.example'',
                            c_image = Some ''wiki.png'', c_healthpath = None, c_created_at = 900\<rparr>),
        admin\<lparr>db := \<lparr>apps = [\<lparr>c_id = 1, c_title = ''Wiki 2'', c_url = ''http://wiki2.example'',
                            c_image = Some ''wiki.png'', c_healthpath = None, c_created_at = 900\<rparr>],
                      apps_id_seq = 1\<rparr>\<rparr>)"
  by (simp add: handle_def isAuthenticated_def req_session_def req_update_def req0_def
        put_app_def update_app_def set_fields_def world0_def decimal_def admin_def store1_def
        row1_def first_row_def)

theorem C8_update_frame_witness:
  "c_title (hd (apps (db (snd (handle env0 world0 req_update admin))))) = ''Wiki 2''
   \<and> map c_id (apps (db (snd (handle env0 world0 req_update admin)))) = [1]
   \<and> map c_created_at (apps (db (snd (handle env0 world0 req_update admin)))) = [900]"
proof -
  have "route req_update = PutApp ''1''"
    by (simp add: req_update_def)
  from C8_update_frame [OF this, of env0 world0 admin]
  have kept: "map c_id (apps (db (snd (handle env0 world0 req_update admin)))) = map c_id (apps (db admin))
        \<and> map c_created_at (apps (db (snd (handle env0 world0 req_update admin))))
            = map c_created_at (apps (db admin))"
    by blast
  have before: "map c_id (apps (db admin)) = [1] \<and> map c_created_at (apps (db admin)) = [900]"
    by (simp add: admin_def store1_def row1_def)
  have changed: "c_title (hd (apps (db (snd (handle env0 world0 req_update admin))))) = ''Wiki 2''"
    by (simp add: update_admin)
  from kept before changed show ?thesis
    by (simp only:)
qed

section \<open>Update and delete by id\<close>

lemma first_row_filter:
  assumes "\<exists>r \<in> set xs. P r"
  shows "\<exists>r \<in> set xs. P r \<and> first_row (map f (filter P xs)) = row_json (f r)"
proof -
  from assms have "filter P xs \<noteq> []"
    by (simp add: filter_empty_conv)
  then obtain r rest where fr: "filter P xs = r # rest"
    by (cases "filter P xs") auto
  then have "r \<in> set (filter P xs)" by simp
  then have "r \<in> set xs \<and> P r" by simp
  with fr show ?thesis by (auto simp: first_row_def)
qed

lemma update_app_fails_iff:
  "(\<exists>err. fst (update_app w t u i h idtxt st) = Inl err)
     \<longleftrightarrow> fault w \<noteq> None \<or> int4in w idtxt = None
         \<or> ((\<exists>r \<in> set (apps st). int4in w idtxt = Some (c_id r)) \<and> (t = None \<or> u = None))"
  by (auto simp: update_app_def split: option.splits)

lemma update_app_Inr:
  assumes "fst (update_app w t u i h idtxt st) = Inr rs"
  shows "\<exists>k. fault w = None \<and> int4in w idtxt = Some k
          \<and> (if \<exists>r \<in> set (apps st). c_id r = k
              then \<exists>tv uv. t = Some tv \<and> u = Some uv
                     \<and> rs = map (set_fields tv uv i h) (filter (\<lambda>r. c_id r = k) (apps st))
                     \<and> apps (snd (update_app w t u i h idtxt st))
                         = map (\<lambda>r. if c_id r = k then set_fields tv uv i h r else r) (apps st)
              else rs = [] \<and> snd (update_app w t u i h idtxt st) = st)"
  using assms by (auto simp: update_app_def split: option.splits if_splits)

lemma put_app_eq:
  "put_app w idtxt req s
     = ((case fst (update_app w (b_title req) (b_url req) (b_image req) (b_healthpath req)
                     idtxt (db s)) of
           Inr rs \<Rightarrow> if rs = [] then Json 404 (error_body msg_not_found)
                     else Json 200 (first_row rs)
         | Inl err \<Rightarrow> Json 500 (error_body (message w err))),
        s\<lparr>db := snd (update_app w (b_title req) (b_url req) (b_image req) (b_healthpath req)
                        idtxt (db s))\<rparr>)"
  by (cases "update_app w (b_title req) (b_url req) (b_image req) (b_healthpath req) idtxt (db s)")
     (simp add: put_app_def split: sum.splits)

text \<open>
  C4: an update request of an authenticated session, with path id \<open>idtxt\<close> and the four
  body fields, has one of three outcomes. If the store raises an error, the response is
  500 with the message of that error. If it raises none and a row with that id exists, the
  response is 200 with the JSON of that row as updated, and the table holds the updated
  row. If it raises none and no row has that id, the response is 404 with an error body
  and nothing changes. The store raises an error exactly when it fails by itself, when the
  id is not an integer for it, or when a row has that id and \<^verbatim>\<open>title\<close> or \<^verbatim>\<open>url\<close> is
  missing.
\<close>

theorem C4_update_outcomes:
  assumes auth: "logged_in s" and rt: "route req = PutApp idtxt"
  shows "(\<forall>err. fst (update_app w (b_title req) (b_url req) (b_image req) (b_healthpath req)
                       idtxt (db s)) = Inl err
            \<longrightarrow> fst (handle e w req s) = Json 500 (error_body (message w err)))
       \<and> (\<forall>rs. fst (update_app w (b_title req) (b_url req) (b_image req) (b_healthpath req)
                       idtxt (db s)) = Inr rs
            \<longrightarrow> (if \<exists>r \<in> set (apps (db s)). int4in w idtxt = Some (c_id r)
                 then \<exists>r \<in> set (apps (db s)). \<exists>tv uv.
                        int4in w idtxt = Some (c_id r)
                        \<and> b_title req = Some tv \<and> b_url req = Some uv
                        \<and> fst (handle e w req s)
                            = Json 200 (row_json (set_fields tv uv (b_image req) (b_healthpath req) r))
                        \<and> set_fields tv uv (b_image req) (b_healthpath req) r
                            \<in> set (apps (db (snd (handle e w req s))))
                 else handle e w req s = (Json 404 (error_body msg_not_found), s)))
       \<and> ((\<exists>err. fst (update_app w (b_title req) (b_url req) (b_image req) (b_healthpath req)
                       idtxt (db s)) = Inl err)
            \<longleftrightarrow> fault w \<noteq> None \<or> int4in w idtxt = None
                \<or> ((\<exists>r \<in> set (apps (db s)). int4in w idtxt = Some (c_id r))
                    \<and> (b_title req = None \<or> b_url req = None)))"
proof (intro conjI allI impI)
  let ?q = "update_app w (b_title req) (b_url req) (b_image req) (b_healthpath req) idtxt (db s)"
  have h: "handle e w req s = put_app w idtxt req s"
    using auth rt by (simp add: handle_def authenticated_passes)
  {
    fix err assume "fst ?q = Inl err"
    then show "fst (handle e w req s) = Json 500 (error_body (message w err))"
      by (simp add: h put_app_eq)
  }
  {
    fix rs assume ok: "fst ?q = Inr rs"
    from update_app_Inr [OF ok] obtain k where up: "fault w = None" and k: "int4in w idtxt = Some k"
      and cases: "if \<exists>r \<in> set (apps (db s)). c_id r = k
              then \<exists>tv uv. b_title req = Some tv \<and> b_url req = Some uv
                     \<and> rs = map (set_fields tv uv (b_image req) (b_healthpath req))
                              (filter (\<lambda>r. c_id r = k) (apps (db s)))
                     \<and> apps (snd ?q)
                         = map (\<lambda>r. if c_id r = k
                                     then set_fields tv uv (b_image req) (b_healthpath req) r else r)
                             (apps (db s))
              else rs = [] \<and> snd ?q = db s"
      by blast
    show "if \<exists>r \<in> set (apps (db s)). int4in w idtxt = Some (c_id r)
          then \<exists>r \<in> set (apps (db s)). \<exists>tv uv.
                 int4in w idtxt = Some (c_id r)
                 \<and> b_title req = Some tv \<and> b_url req = Some uv
                 \<and> fst (handle e w req s)
                     = Json 200 (row_json (set_fields tv uv (b_image req) (b_healthpath req) r))
                 \<and> set_fields tv uv (b_image req) (b_healthpath req) r
                     \<in> set (apps (db (snd (handle e w req s))))
          else handle e w req s = (Json 404 (error_body msg_not_found), s)"
    proof (cases "\<exists>r \<in> set (apps (db s)). c_id r = k")
      case True
      with cases obtain tv uv where t: "b_title req = Some tv" and u: "b_url req = Some uv"
        and rs: "rs = map (set_fields tv uv (b_image req) (b_healthpath req))
                         (filter (\<lambda>r. c_id r = k) (apps (db s)))"
        and ap: "apps (snd ?q)
                   = map (\<lambda>r. if c_id r = k
                               then set_fields tv uv (b_image req) (b_healthpath req) r else r)
                       (apps (db s))"
        by auto
      from first_row_filter [OF True, of "set_fields tv uv (b_image req) (b_healthpath req)"]
      obtain r where r: "r \<in> set (apps (db s))" "c_id r = k"
        and fr: "first_row rs = row_json (set_fields tv uv (b_image req) (b_healthpath req) r)"
        unfolding rs by blast
      have ne: "rs \<noteq> []"
        using r by (auto simp: rs filter_empty_conv)
      have resp: "fst (handle e w req s)
                   = Json 200 (row_json (set_fields tv uv (b_image req) (b_healthpath req) r))"
        using ok ne fr by (simp add: h put_app_eq)
      have "db (snd (handle e w req s)) = snd ?q"
        by (simp add: h put_app_db)
      then have mem: "set_fields tv uv (b_image req) (b_healthpath req) r
                       \<in> set (apps (db (snd (handle e w req s))))"
        using r by (auto simp: ap intro!: image_eqI [of _ _ r])
      from True k r t u resp mem show ?thesis by auto
    next
      case False
      with cases have "rs = []" and "snd ?q = db s" by auto
      with ok have "handle e w req s = (Json 404 (error_body msg_not_found), s)"
        by (simp add: h put_app_eq)
      with False k show ?thesis by auto
    qed
  }
qed (simp_all only: update_app_fails_iff)


lemma decimal_samples: "decimal ''1'' = Some 1" "decimal ''9'' = Some 9" "decimal ''abc'' = None"
  by (simp_all add: decimal_def)

theorem C4_update_outcomes_witness:
  "fst (handle env0 world0 req_update admin)
     = Json 200 (row_json \<lparr>c_id = 1, c_title = ''Wiki 2'', c_url = ''http://wiki2.example'',
                           c_image = Some ''wiki.png'', c_healthpath = None, c_created_at = 900\<rparr>)
   \<and> handle env0 world0 req_update_9 admin = (Json 404 (error_body msg_not_found), admin)
   \<and> fst (handle env0 world_down req_update admin) = Json 500 (error_body ''connect ECONNREFUSED'')"
proof -
  have rt: "route req_update = PutApp ''1''" "route req_update_9 = PutApp ''9''"
    by (simp_all add: req_update_def req_update_9_def)
  have flds: "b_title req_update = Some ''Wiki 2''" "b_url req_update = Some ''http://wiki2.example''"
    "b_image req_update = Some ''wiki.png''" "b_healthpath req_update = None"
    "b_title req_update_9 = Some ''Wiki 2''" "b_url req_update_9 = Some ''http://wiki2.example''"
    "b_image req_update_9 = Some ''wiki.png''" "b_healthpath req_update_9 = None"
    by (simp_all add: req_update_def req_update_9_def req0_def)
  have st: "apps (db admin) = [row1]" "c_id row1 = 1"
    by (simp_all add: admin_def store1_def row1_def)
  have w0: "fault world0 = None" "int4in world0 = decimal" "message world_down = sample_message"
    "fault world_down = Some (StoreFailure ''connect ECONNREFUSED'')"
    by (simp_all add: world0_def world_down_def)
  have q1: "fst (update_app world0 (b_title req_update) (b_url req_update) (b_image req_update)
                   (b_healthpath req_update) ''1'' (db admin))
              = Inr [set_fields ''Wiki 2'' ''http://wiki2.example'' (Some ''wiki.png'') None row1]"
    by (simp add: update_app_def flds st w0 decimal_samples)
  have q9: "fst (update_app world0 (b_title req_update_9) (b_url req_update_9) (b_image req_update_9)
                   (b_healthpath req_update_9) ''9'' (db admin)) = Inr []"
    by (simp add: update_app_def flds st w0 decimal_samples)
  have qd: "fst (update_app world_down (b_title req_update) (b_url req_update) (b_image req_update)
                   (b_healthpath req_update) ''1'' (db admin))
              = Inl (StoreFailure ''connect ECONNREFUSED'')"
    by (simp add: update_app_def w0)
  from C4_update_outcomes [OF logged_in_admin rt(1), of world0 env0] q1
  have "fst (handle env0 world0 req_update admin)
          = Json 200 (row_json (set_fields ''Wiki 2'' ''http://wiki2.example'' (Some ''wiki.png'') None row1))"
    by (simp add: flds st w0 decimal_samples)
  then have a: "fst (handle env0 world0 req_update admin)
     = Json 200 (row_json \<lparr>c_id = 1, c_title = ''Wiki 2'', c_url = ''http://wiki2.example'',
                           c_image = Some ''wiki.png'', c_healthpath = None, c_created_at = 900\<rparr>)"
    by (simp add: set_fields_def row1_def)
  from C4_update_outcomes [OF logged_in_admin rt(2), of world0 env0] q9
  have b: "handle env0 world0 req_update_9 admin = (Json 404 (error_body msg_not_found), admin)"
    by (simp add: flds st w0 decimal_samples)
  from C4_update_outcomes [OF logged_in_admin rt(1), of world_down env0] qd
  have c: "fst (handle env0 world_down req_update admin) = Json 500 (error_body ''connect ECONNREFUSED'')"
    by (simp add: w0)
  from a b c show ?thesis by (simp only:)
qed


lemma delete_handler_eq:
  "delete_handler w idtxt s
     = ((case fst (delete_app w idtxt (db s)) of
           Inr rs \<Rightarrow> if rs = [] then Json 404 (error_body msg_not_found)
                     else Json 200 (JObj [(''message'', JStr msg_deleted),
                                          (''removedApp'', first_row rs)])
         | Inl err \<Rightarrow> Json 500 (error_body (message w err))),
        s\<lparr>db := snd (delete_app w idtxt (db s))\<rparr>)"
  by (cases "delete_app w idtxt (db s)") (simp add: delete_handler_def split: sum.splits)

lemma delete_app_ok:
  assumes "fault w = None" and "int4in w idtxt = Some k"
  shows "delete_app w idtxt st
           = (Inr (filter (\<lambda>r. c_id r = k) (apps st)), st\<lparr>apps := filter (\<lambda>r. c_id r \<noteq> k) (apps st)\<rparr>)"
  using assms by (simp add: delete_app_def)

lemma filter_none: "\<not> (\<exists>r \<in> set xs. P r) \<Longrightarrow> filter P xs = [] \<and> filter (\<lambda>r. \<not> P r) xs = xs"
  by (induction xs) auto

text \<open>
  C5: delete is not idempotent. For an authenticated session, an id the store reads as
  the integer \<open>k\<close> and a store that answers: if no row has the id \<open>k\<close>, the response is 404
  and nothing changes; if a row has it, the response is 200 with the body
  \<^verbatim>\<open>{message, removedApp}\<close> whose \<^verbatim>\<open>removedApp\<close> is a row with that id, the row is gone
  from the table, and a second delete of the same id answers 404.
\<close>

theorem C5_delete_not_idempotent:
  assumes auth: "logged_in s" and rt: "route req = DeleteApp idtxt"
    and first: "fault w = None" "int4in w idtxt = Some k"
    and second: "fault w2 = None" "int4in w2 idtxt = Some k"
  shows "(\<not> (\<exists>r \<in> set (apps (db s)). c_id r = k)
            \<longrightarrow> handle e w req s = (Json 404 (error_body msg_not_found), s))
       \<and> ((\<exists>r \<in> set (apps (db s)). c_id r = k)
            \<longrightarrow> (\<exists>r \<in> set (apps (db s)). c_id r = k
                   \<and> fst (handle e w req s)
                       = Json 200 (JObj [(''message'', JStr msg_deleted), (''removedApp'', row_json r)])
                   \<and> r \<notin> set (apps (db (snd (handle e w req s)))))
               \<and> fst (handle e w2 req (snd (handle e w req s)))
                   = Json 404 (error_body msg_not_found))"
proof (intro conjI impI)
  have h: "handle e w req s = delete_handler w idtxt s"
    using auth rt by (simp add: handle_def authenticated_passes)
  let ?s' = "s\<lparr>db := (db s)\<lparr>apps := filter (\<lambda>r. c_id r \<noteq> k) (apps (db s))\<rparr>\<rparr>"
  {
    assume none: "\<not> (\<exists>r \<in> set (apps (db s)). c_id r = k)"
    from filter_none [OF none]
    show "handle e w req s = (Json 404 (error_body msg_not_found), s)"
      by (simp add: h delete_handler_eq delete_app_ok [OF first])
  }
  assume some: "\<exists>r \<in> set (apps (db s)). c_id r = k"
  from first_row_filter [OF some, of "\<lambda>r. r"]
  obtain r where r: "r \<in> set (apps (db s))" "c_id r = k"
    and fr: "first_row (filter (\<lambda>r. c_id r = k) (apps (db s))) = row_json r"
    by auto
  have ne: "filter (\<lambda>r. c_id r = k) (apps (db s)) \<noteq> []"
    using r by (auto simp: filter_empty_conv)
  have out: "handle e w req s
      = (Json 200 (JObj [(''message'', JStr msg_deleted), (''removedApp'', row_json r)]), ?s')"
    using ne fr by (simp add: h delete_handler_eq delete_app_ok [OF first])
  with r show "\<exists>r \<in> set (apps (db s)). c_id r = k
                   \<and> fst (handle e w req s)
                       = Json 200 (JObj [(''message'', JStr msg_deleted), (''removedApp'', row_json r)])
                   \<and> r \<notin> set (apps (db (snd (handle e w req s))))"
    by auto
  have auth': "logged_in ?s'"
    using auth by (simp add: logged_in_def)
  have gone: "filter (\<lambda>r. c_id r = k) (filter (\<lambda>r. c_id r \<noteq> k) (apps (db s))) = []"
    by (simp add: filter_empty_conv)
  have "handle e w2 req ?s' = delete_handler w2 idtxt ?s'"
    using auth' rt by (simp add: handle_def authenticated_passes)
  then show "fst (handle e w2 req (snd (handle e w req s))) = Json 404 (error_body msg_not_found)"
    using gone by (simp add: out delete_handler_eq delete_app_ok [OF second])
qed

theorem C5_delete_not_idempotent_witness:
  "handle env0 world0 req_delete_9 admin = (Json 404 (error_body msg_not_found), admin)
   \<and> fst (handle env0 world0 req_delete admin)
       = Json 200 (JObj [(''message'', JStr msg_deleted), (''removedApp'', row_json row1)])
   \<and> fst (handle env0 world0 req_delete (snd (handle env0 world0 req_delete admin)))
       = Json 404 (error_body msg_not_found)"
proof -
  have rt: "route req_delete = DeleteApp ''1''" "route req_delete_9 = DeleteApp ''9''"
    by (simp_all add: req_delete_def req_delete_9_def)
  have w0: "fault world0 = None" "int4in world0 ''1'' = Some 1" "int4in world0 ''9'' = Some 9"
    by (simp_all add: world0_def decimal_samples)
  have st: "apps (db admin) = [row1]" "c_id row1 = 1"
    by (simp_all add: admin_def store1_def row1_def)
  from C5_delete_not_idempotent [OF logged_in_admin rt(2) w0(1) w0(3) w0(1) w0(3), of env0]
  have a: "handle env0 world0 req_delete_9 admin = (Json 404 (error_body msg_not_found), admin)"
    by (simp add: st)
  from C5_delete_not_idempotent [OF logged_in_admin rt(1) w0(1) w0(2) w0(1) w0(2), of env0]
  have b: "fst (handle env0 world0 req_delete admin)
       = Json 200 (JObj [(''message'', JStr msg_deleted), (''removedApp'', row_json row1)])
     \<and> fst (handle env0 world0 req_delete (snd (handle env0 world0 req_delete admin)))
       = Json 404 (error_body msg_not_found)"
    by (simp add: st)
  from a b show ?thesis by (simp only:)
qed

text \<open>
  C10: for an update or a delete request of an authenticated session whose path id the
  store cannot read as an integer, the store raises an error and the response is 500 with
  the message of that error (the error of the malformed id, unless the store failed by
  itself first), nothing changes, and the response is not 404: a 404 is answered only
  when the store reads the id as an integer that no row has.
\<close>

theorem C10_malformed_id:
  assumes auth: "logged_in s"
    and rt: "route req = PutApp idtxt \<or> route req = DeleteApp idtxt"
  shows "(int4in w idtxt = None
            \<longrightarrow> (\<exists>err. handle e w req s = (Json 500 (error_body (message w err)), s)
                    \<and> (fault w = Some err \<or> fault w = None \<and> err = InvalidInteger idtxt)))
       \<and> (status (fst (handle e w req s)) = 404
            \<longrightarrow> (\<exists>k. int4in w idtxt = Some k \<and> \<not> (\<exists>r \<in> set (apps (db s)). c_id r = k)))"
proof -
  let ?u = "update_app w (b_title req) (b_url req) (b_image req) (b_healthpath req) idtxt (db s)"
  let ?d = "delete_app w idtxt (db s)"
  have bad_u: "int4in w idtxt = None \<Longrightarrow>
      \<exists>err. ?u = (Inl err, db s) \<and> (fault w = Some err \<or> fault w = None \<and> err = InvalidInteger idtxt)"
    by (cases "fault w") (simp_all add: update_app_def)
  have bad_d: "int4in w idtxt = None \<Longrightarrow>
      \<exists>err. ?d = (Inl err, db s) \<and> (fault w = Some err \<or> fault w = None \<and> err = InvalidInteger idtxt)"
    by (cases "fault w") (simp_all add: delete_app_def)
  have nf_u: "fst ?u = Inr [] \<Longrightarrow> \<exists>k. int4in w idtxt = Some k \<and> \<not> (\<exists>r \<in> set (apps (db s)). c_id r = k)"
    by (auto simp: update_app_def filter_empty_conv split: option.splits if_splits)
  have nf_d: "fst ?d = Inr [] \<Longrightarrow> \<exists>k. int4in w idtxt = Some k \<and> \<not> (\<exists>r \<in> set (apps (db s)). c_id r = k)"
    by (auto simp: delete_app_def filter_empty_conv split: option.splits if_splits)
  from rt show ?thesis
  proof
    assume r: "route req = PutApp idtxt"
    then have h: "handle e w req s = put_app w idtxt req s"
      using auth by (simp add: handle_def authenticated_passes)
    have 1: "int4in w idtxt = None \<longrightarrow> (\<exists>err. handle e w req s = (Json 500 (error_body (message w err)), s)
                    \<and> (fault w = Some err \<or> fault w = None \<and> err = InvalidInteger idtxt))"
    proof
      assume "int4in w idtxt = None"
      from bad_u [OF this] obtain err where "?u = (Inl err, db s)"
        and "fault w = Some err \<or> fault w = None \<and> err = InvalidInteger idtxt" by blast
      then show "\<exists>err. handle e w req s = (Json 500 (error_body (message w err)), s)
                    \<and> (fault w = Some err \<or> fault w = None \<and> err = InvalidInteger idtxt)"
        by (intro exI [of _ err]) (simp add: h put_app_eq)
    qed
    have 2: "status (fst (handle e w req s)) = 404
            \<longrightarrow> (\<exists>k. int4in w idtxt = Some k \<and> \<not> (\<exists>r \<in> set (apps (db s)). c_id r = k))"
    proof
      assume "status (fst (handle e w req s)) = 404"
      then have "fst ?u = Inr []"
        by (simp add: h put_app_eq split: sum.splits if_splits)
      then show "\<exists>k. int4in w idtxt = Some k \<and> \<not> (\<exists>r \<in> set (apps (db s)). c_id r = k)"
        by (rule nf_u)
    qed
    from 1 2 show ?thesis by (simp only:)
  next
    assume r: "route req = DeleteApp idtxt"
    then have h: "handle e w req s = delete_handler w idtxt s"
      using auth by (simp add: handle_def authenticated_passes)
    have 1: "int4in w idtxt = None \<longrightarrow> (\<exists>err. handle e w req s = (Json 500 (error_body (message w err)), s)
                    \<and> (fault w = Some err \<or> fault w = None \<and> err = InvalidInteger idtxt))"
    proof
      assume "int4in w idtxt = None"
      from bad_d [OF this] obtain err where "?d = (Inl err, db s)"
        and "fault w = Some err \<or> fault w = None \<and> err = InvalidInteger idtxt" by blast
      then show "\<exists>err. handle e w req s = (Json 500 (error_body (message w err)), s)
                    \<and> (fault w = Some err \<or> fault w = None \<and> err = InvalidInteger idtxt)"
        by (intro exI [of _ err]) (simp add: h delete_handler_eq)
    qed
    have 2: "status (fst (handle e w req s)) = 404
            \<longrightarrow> (\<exists>k. int4in w idtxt = Some k \<and> \<not> (\<exists>r \<in> set (apps (db s)). c_id r = k))"
    proof
      assume "status (fst (handle e w req s)) = 404"
      then have "fst ?d = Inr []"
        by (simp add: h delete_handler_eq split: sum.splits if_splits)
      then show "\<exists>k. int4in w idtxt = Some k \<and> \<not> (\<exists>r \<in> set (apps (db s)). c_id r = k)"
        by (rule nf_d)
    qed
    from 1 2 show ?thesis by (simp only:)
  qed
qed


lemma delete_9_admin: "handle env0 world0 req_delete_9 admin = (Json 404 (error_body msg_not_found), admin)"
  by (simp add: handle_def isAuthenticated_def req_session_def req_delete_9_def req0_def
        delete_handler_def delete_app_def world0_def decimal_samples admin_def store1_def row1_def)

theorem C10_malformed_id_witness:
  "handle env0 world0 req_update_abc admin
     = (Json 500 (error_body (sample_message (InvalidInteger ''abc''))), admin)
   \<and> handle env0 world0 req_delete_abc admin
     = (Json 500 (error_body (sample_message (InvalidInteger ''abc''))), admin)
   \<and> status (fst (handle env0 world0 req_delete_9 admin)) = 404
   \<and> (\<exists>k. int4in world0 ''9'' = Some k \<and> \<not> (\<exists>r \<in> set (apps (db admin)). c_id r = k))"
proof -
  have rt: "route req_update_abc = PutApp ''abc'' \<or> route req_update_abc = DeleteApp ''abc''"
    "route req_delete_abc = PutApp ''abc'' \<or> route req_delete_abc = DeleteApp ''abc''"
    "route req_delete_9 = PutApp ''9'' \<or> route req_delete_9 = DeleteApp ''9''"
    by (simp_all add: req_update_abc_def req_delete_abc_def req_delete_9_def)
  have w0: "int4in world0 ''abc'' = None" "fault world0 = None" "message world0 = sample_message"
    by (simp_all add: world0_def decimal_samples)
  have nf: "status (fst (handle env0 world0 req_delete_9 admin)) = 404"
    by (simp add: delete_9_admin)
  from C10_malformed_id [OF logged_in_admin rt(1), of world0 env0] w0
  have a: "handle env0 world0 req_update_abc admin
     = (Json 500 (error_body (sample_message (InvalidInteger ''abc''))), admin)"
    by auto
  from C10_malformed_id [OF logged_in_admin rt(2), of world0 env0] w0
  have b: "handle env0 world0 req_delete_abc admin
     = (Json 500 (error_body (sample_message (InvalidInteger ''abc''))), admin)"
    by auto
  from C10_malformed_id [OF logged_in_admin rt(3), of world0 env0] nf
  have c: "\<exists>k. int4in world0 ''9'' = Some k \<and> \<not> (\<exists>r \<in> set (apps (db admin)). c_id r = k)"
    by blast
  from a b nf c show ?thesis by (simp only:)
qed

section \<open>The health proxy\<close>

text \<open>
  C6, as stated, fails: a request whose \<^verbatim>\<open>url\<close> parameter is present and empty is
  answered 400 as well, with no outbound request; the claim has the proxy fetch the URL
  and answer with the status of the target or, the fetch failing as it does here, 500.
\<close>

theorem C6_empty_url_counterexample:
  "query_url req_empty_url = Some []
   \<and> fetch world0 [] = Inl ''getaddrinfo ENOTFOUND''
   \<and> handle env0 world0 req_empty_url guest = (Json 400 (error_body msg_no_url), guest)"
  by (simp add: req_empty_url_def req0_def world0_def sample_fetch_def handle_def
        proxy_health_def falsy_def)

text \<open>
  C6, amended: if the \<^verbatim>\<open>url\<close> query parameter is absent or empty, the response is 400;
  otherwise the proxy fetches that URL and, when the target answers with a status code that
  \<^verbatim>\<open>res.sendStatus\<close> sends, responds with that status code and nothing of the target's
  body; when the fetch fails, or \<^verbatim>\<open>res.sendStatus\<close> throws on the status code of the
  target, the response is 500 with a generic message and the description of the error.
  Nothing changes on the server.
\<close>

theorem C6_proxy_health:
  assumes "route req = ProxyHealth"
  shows "(query_url req = None \<or> query_url req = Some []
            \<longrightarrow> handle e w req s = (Json 400 (error_body msg_no_url), s))
       \<and> (\<forall>u code body. query_url req = Some u \<and> u \<noteq> [] \<and> fetch w u = Inr (code, body)
                          \<and> sendStatus_error w code = None
            \<longrightarrow> handle e w req s = (SendStatus code, s))
       \<and> (\<forall>u code body m. query_url req = Some u \<and> u \<noteq> [] \<and> fetch w u = Inr (code, body)
                            \<and> sendStatus_error w code = Some m
            \<longrightarrow> handle e w req s
                = (Json 500 (JObj [(''error'', JStr msg_health_failed), (''details'', JStr m)]), s))
       \<and> (\<forall>u m. query_url req = Some u \<and> u \<noteq> [] \<and> fetch w u = Inl m
            \<longrightarrow> handle e w req s
                = (Json 500 (JObj [(''error'', JStr msg_health_failed), (''details'', JStr m)]), s))"
  using assms by (auto simp: handle_def proxy_health_def falsy_iff)

theorem C6_proxy_health_witness:
  "handle env0 world0 (req0\<lparr>route := ProxyHealth\<rparr>) guest = (Json 400 (error_body msg_no_url), guest)
   \<and> handle env0 world0 req_probe guest = (SendStatus 503, guest)
   \<and> handle env0 world0 req_probe_odd guest
       = (Json 500 (JObj [(''error'', JStr msg_health_failed),
                          (''details'', JStr ''Invalid status code'')]), guest)
   \<and> handle env0 world0 req_probe_down guest
       = (Json 500 (JObj [(''error'', JStr msg_health_failed),
                          (''details'', JStr ''getaddrinfo ENOTFOUND'')]), guest)"
proof -
  have rt: "route (req0\<lparr>route := ProxyHealth\<rparr>) = ProxyHealth" "route req_probe = ProxyHealth"
    "route req_probe_down = ProxyHealth" "route req_probe_odd = ProxyHealth"
    by (simp_all add: req_probe_def req_probe_down_def req_probe_odd_def)
  have q: "query_url (req0\<lparr>route := ProxyHealth\<rparr>) = None"
    "query_url req_probe = Some ''http://up.example/health''"
    "query_url req_probe_down = Some ''http://down.example/''"
    "query_url req_probe_odd = Some ''http://odd.example/''"
    by (simp_all add: req_probe_def req_probe_down_def req_probe_odd_def req0_def)
  have f: "fetch world0 ''http://up.example/health'' = Inr (503, ''maintenance'')"
    "fetch world0 ''http://down.example/'' = Inl ''getaddrinfo ENOTFOUND''"
    "fetch world0 ''http://odd.example/'' = Inr (99, ''odd'')"
    by (simp_all add: world0_def sample_fetch_def)
  have t: "sendStatus_error world0 503 = None"
    "sendStatus_error world0 99 = Some ''Invalid status code''"
    by (simp_all add: world0_def sample_sendStatus_error_def)
  from C6_proxy_health [OF rt(1), of env0 world0 guest] q(1)
  have a: "handle env0 world0 (req0\<lparr>route := ProxyHealth\<rparr>) guest
             = (Json 400 (error_body msg_no_url), guest)"
    by blast
  from C6_proxy_health [OF rt(2), of env0 world0 guest] q(2) f(1) t(1)
  have b: "handle env0 world0 req_probe guest = (SendStatus 503, guest)"
    by simp
  from C6_proxy_health [OF rt(4), of env0 world0 guest] q(4) f(3) t(2)
  have c: "handle env0 world0 req_probe_odd guest
       = (Json 500 (JObj [(''error'', JStr msg_health_failed),
                          (''details'', JStr ''Invalid status code'')]), guest)"
    by simp
  from C6_proxy_health [OF rt(3), of env0 world0 guest] q(3) f(2)
  have d: "handle env0 world0 req_probe_down guest
       = (Json 500 (JObj [(''error'', JStr msg_health_failed),
                          (''details'', JStr ''getaddrinfo ENOTFOUND'')]), guest)"
    by simp
  from a b c d show ?thesis by (simp only:)
qed

section \<open>Ids along a run\<close>

lemma handle_db_cases:
  "db (snd (handle e w req s)) = db s
   \<or> (route req = PostApps
       \<and> handle e w req s = post_apps w req s)
   \<or> (\<exists>idtxt. db (snd (handle e w req s))
         = snd (update_app w (b_title req) (b_url req) (b_image req) (b_healthpath req) idtxt (db s)))
   \<or> (\<exists>idtxt. db (snd (handle e w req s)) = snd (delete_app w idtxt (db s)))"
proof (cases "route req")
  case GetApps
  then show ?thesis by (simp add: handle_def get_apps_def split: sum.splits)
next
  case PostApps
  then show ?thesis by (simp add: handle_def isAuthenticated_def)
next
  case (PutApp idtxt)
  then show ?thesis by (auto simp: handle_def isAuthenticated_def put_app_db)
next
  case (DeleteApp idtxt)
  then show ?thesis by (auto simp: handle_def isAuthenticated_def delete_handler_eq)
next
  case ProxyHealth
  then show ?thesis
    by (simp add: handle_def proxy_health_def split: sum.splits prod.splits option.splits)
next
  case PostLogin
  then show ?thesis by (simp add: handle_def login_def)
next
  case GetLogout
  then show ?thesis by (simp add: handle_def logout_def)
next
  case GetAdmin
  then show ?thesis by (simp add: handle_def isAuthenticated_def)
next
  case GetConfig
  then show ?thesis by (simp add: handle_def get_config_def)
qed (simp_all add: handle_def)

lemma post_apps_eq:
  "post_apps w req s
     = ((case fst (insert_app w (b_title req) (b_url req) (b_image req) (b_healthpath req) (db s)) of
           Inr rs \<Rightarrow> Json 200 (first_row rs)
         | Inl err \<Rightarrow> Json 500 (error_body (message w err))),
        s\<lparr>db := snd (insert_app w (b_title req) (b_url req) (b_image req) (b_healthpath req) (db s))\<rparr>)"
  by (cases "insert_app w (b_title req) (b_url req) (b_image req) (b_healthpath req) (db s)")
     (simp add: post_apps_def split: sum.splits)

lemma insert_app_cases:
  "(\<exists>err. insert_app w t u i h st = (Inl err, st))
   \<or> (\<exists>err. insert_app w t u i h st = (Inl err, st\<lparr>apps_id_seq := apps_id_seq st + 1\<rparr>))
   \<or> (\<exists>r. c_id r = apps_id_seq st + 1
         \<and> c_id r \<notin> set (map c_id (apps st))
         \<and> insert_app w t u i h st
             = (Inr [r], st\<lparr>apps_id_seq := apps_id_seq st + 1, apps := apps st @ [r]\<rparr>))"
proof (cases "fault w")
  case (Some err)
  then show ?thesis by (simp add: insert_app_def)
next
  case None
  show ?thesis
  proof (cases "2147483647 \<le> apps_id_seq st")
    case True
    with None show ?thesis by (simp add: insert_app_def)
  next
    case False
    show ?thesis
    proof (cases t)
      case None
      with \<open>fault w = None\<close> False show ?thesis by (simp add: insert_app_def Let_def)
    next
      case (Some tv)
      note t = this
      show ?thesis
      proof (cases u)
        case None
        with \<open>fault w = None\<close> False t show ?thesis by (simp add: insert_app_def Let_def)
      next
        case (Some uv)
        show ?thesis
        proof (cases "\<exists>r \<in> set (apps st). c_id r = apps_id_seq st + 1")
          case True
          with \<open>fault w = None\<close> False t Some show ?thesis
            by (simp add: insert_app_def Let_def)
        next
          case dup: False
          let ?r = "\<lparr>c_id = apps_id_seq st + 1, c_title = tv, c_url = uv, c_image = i,
                      c_healthpath = h, c_created_at = now w\<rparr>"
          have "insert_app w t u i h st
                  = (Inr [?r], st\<lparr>apps_id_seq := apps_id_seq st + 1, apps := apps st @ [?r]\<rparr>)"
            using \<open>fault w = None\<close> False t Some dup by (simp add: insert_app_def Let_def)
          moreover have "c_id ?r \<notin> set (map c_id (apps st))"
            using dup by auto
          ultimately show ?thesis by (intro disjI2 exI [of _ ?r]) simp
        qed
      qed
    qed
  qed
qed

lemma insert_app_ids:
  assumes "ids_ok st"
  shows "ids_ok (snd (insert_app w t u i h st))
         \<and> apps_id_seq st \<le> apps_id_seq (snd (insert_app w t u i h st))
         \<and> set (map c_id (apps (snd (insert_app w t u i h st))))
             \<subseteq> set (map c_id (apps st))
                 \<union> (case fst (insert_app w t u i h st) of
                      Inr rs \<Rightarrow> {apps_id_seq st + 1} | Inl err \<Rightarrow> {})
         \<and> (\<forall>rs. fst (insert_app w t u i h st) = Inr rs
               \<longrightarrow> first_row rs = row_json (hd rs) \<and> c_id (hd rs) = apps_id_seq st + 1
                   \<and> apps_id_seq (snd (insert_app w t u i h st)) = apps_id_seq st + 1)"
proof -
  from insert_app_cases [of w t u i h st]
  consider (a) err where "insert_app w t u i h st = (Inl err, st)"
    | (b) err where "insert_app w t u i h st = (Inl err, st\<lparr>apps_id_seq := apps_id_seq st + 1\<rparr>)"
    | (c) r where "c_id r = apps_id_seq st + 1" "c_id r \<notin> set (map c_id (apps st))"
        "insert_app w t u i h st
           = (Inr [r], st\<lparr>apps_id_seq := apps_id_seq st + 1, apps := apps st @ [r]\<rparr>)"
    by blast
  then show ?thesis
  proof cases
    case a
    with assms show ?thesis by simp
  next
    case b
    with assms show ?thesis by (force simp: ids_ok_def)
  next
    case c
    have "ids_ok (st\<lparr>apps_id_seq := apps_id_seq st + 1, apps := apps st @ [r]\<rparr>)"
      using assms c(1,2) by (force simp: ids_ok_def)
    with c show ?thesis by (simp add: first_row_def)
  qed
qed

lemma update_app_ids:
  assumes "ids_ok st"
  shows "ids_ok (snd (update_app w t u i h idtxt st))
         \<and> apps_id_seq (snd (update_app w t u i h idtxt st)) = apps_id_seq st
         \<and> set (map c_id (apps (snd (update_app w t u i h idtxt st)))) = set (map c_id (apps st))"
proof -
  have m: "map c_id (apps (snd (update_app w t u i h idtxt st))) = map c_id (apps st)"
    and q: "apps_id_seq (snd (update_app w t u i h idtxt st)) = apps_id_seq st"
    using update_app_keeps [of w t u i h idtxt st] by simp_all
  have "\<forall>r \<in> set (apps (snd (update_app w t u i h idtxt st))). c_id r \<le> apps_id_seq st"
  proof
    fix r assume "r \<in> set (apps (snd (update_app w t u i h idtxt st)))"
    then have "c_id r \<in> set (map c_id (apps (snd (update_app w t u i h idtxt st))))" by simp
    then have "c_id r \<in> set (map c_id (apps st))" by (simp only: m)
    with assms show "c_id r \<le> apps_id_seq st" by (auto simp: ids_ok_def)
  qed
  with assms m q show ?thesis by (simp add: ids_ok_def)
qed

lemma delete_app_ids:
  assumes "ids_ok st"
  shows "ids_ok (snd (delete_app w idtxt st))
         \<and> apps_id_seq (snd (delete_app w idtxt st)) = apps_id_seq st
         \<and> set (map c_id (apps (snd (delete_app w idtxt st)))) \<subseteq> set (map c_id (apps st))"
  using assms
  by (auto simp: delete_app_def ids_ok_def distinct_map_filter split: option.splits)


lemma returned_id_simps:
  "returned_id (Json 200 (row_json r)) = Some (c_id r)"
  "returned_id (Json n (error_body m)) = None"
  "returned_id (Redirect l) = None"
  by (simp_all add: row_json_def error_body_def)

lemma handle_post_ids:
  assumes ok: "ids_ok (db s)" and rt: "route req = PostApps"
  shows "ids_ok (db (snd (handle e w req s)))
         \<and> apps_id_seq (db s) \<le> apps_id_seq (db (snd (handle e w req s)))
         \<and> (case returned_id (fst (handle e w req s)) of
               None \<Rightarrow> set (map c_id (apps (db (snd (handle e w req s)))))
                         \<subseteq> set (map c_id (apps (db s)))
             | Some i \<Rightarrow> i = apps_id_seq (db s) + 1
                         \<and> apps_id_seq (db (snd (handle e w req s))) = i
                         \<and> set (map c_id (apps (db (snd (handle e w req s)))))
                             \<subseteq> insert i (set (map c_id (apps (db s)))))"
proof (cases "handle e w req s = post_apps w req s")
  case False
  with rt have "handle e w req s = (Json 401 (error_body msg_unauthorized), s)
                \<or> handle e w req s = (Redirect ''/login'', s)"
    by (simp add: handle_def isAuthenticated_def split: if_splits)
  with ok show ?thesis by (auto simp: returned_id_simps)
next
  case True
  let ?q = "insert_app w (b_title req) (b_url req) (b_image req) (b_healthpath req) (db s)"
  note facts = insert_app_ids [OF ok, of w "b_title req" "b_url req" "b_image req" "b_healthpath req"]
  show ?thesis
  proof (cases "fst ?q")
    case (Inl err)
    with facts show ?thesis by (simp add: True post_apps_eq returned_id_simps)
  next
    case (Inr rs)
    with facts have "first_row rs = row_json (hd rs)" "c_id (hd rs) = apps_id_seq (db s) + 1"
      "apps_id_seq (snd ?q) = apps_id_seq (db s) + 1" by simp_all
    with facts Inr show ?thesis by (simp add: True post_apps_eq returned_id_simps)
  qed
qed

lemma handle_other_ids:
  assumes ok: "ids_ok (db s)" and rt: "route req \<noteq> PostApps"
  shows "ids_ok (db (snd (handle e w req s)))
         \<and> apps_id_seq (db (snd (handle e w req s))) = apps_id_seq (db s)
         \<and> set (map c_id (apps (db (snd (handle e w req s))))) \<subseteq> set (map c_id (apps (db s)))"
proof -
  from handle_db_cases [of e w req s] rt
  consider "db (snd (handle e w req s)) = db s"
    | idtxt where "db (snd (handle e w req s))
         = snd (update_app w (b_title req) (b_url req) (b_image req) (b_healthpath req) idtxt (db s))"
    | idtxt where "db (snd (handle e w req s)) = snd (delete_app w idtxt (db s))"
    by blast
  then show ?thesis
  proof cases
    case 1
    with ok show ?thesis by simp
  next
    case 2
    with update_app_ids [OF ok] show ?thesis by simp
  next
    case 3
    with delete_app_ids [OF ok] show ?thesis by simp
  qed
qed

lemma run_ids:
  assumes "ids_ok (db s)"
  shows "sorted_wrt (<) (created_ids e evs s)
         \<and> (\<forall>i \<in> set (created_ids e evs s). apps_id_seq (db s) < i)
         \<and> ids_ok (db (run e evs s))
         \<and> set (map c_id (apps (db (run e evs s))))
             \<subseteq> set (map c_id (apps (db s))) \<union> set (created_ids e evs s)"
  using assms
proof (induction evs arbitrary: s)
  case Nil
  then show ?case by simp
next
  case (Cons ev evs)
  obtain w req where ev: "ev = (w, req)" by (cases ev)
  let ?s' = "snd (handle e w req s)"
  let ?ids = "\<lambda>t. set (map c_id (apps (db t)))"
  have r: "run e (ev # evs) s = run e evs ?s'"
    by (simp add: ev)
  show ?case
  proof (cases "route req = PostApps \<and> returned_id (fst (handle e w req s)) \<noteq> None")
    case False
    have ok': "ids_ok (db ?s')" and le: "apps_id_seq (db s) \<le> apps_id_seq (db ?s')"
      and sub: "?ids ?s' \<subseteq> ?ids s"
    proof -
      show "ids_ok (db ?s')"
        using handle_other_ids [OF Cons.prems, of req e w] handle_post_ids [OF Cons.prems, of req e w]
        by (cases "route req = PostApps") simp_all
      show "apps_id_seq (db s) \<le> apps_id_seq (db ?s')"
        using handle_other_ids [OF Cons.prems, of req e w] handle_post_ids [OF Cons.prems, of req e w]
        by (cases "route req = PostApps") simp_all
      show "?ids ?s' \<subseteq> ?ids s"
      proof (cases "route req = PostApps")
        case True
        with False have "returned_id (fst (handle e w req s)) = None" by simp
        with handle_post_ids [OF Cons.prems True, of e w] show ?thesis by simp
      next
        case False
        with handle_other_ids [OF Cons.prems False, of e w] show ?thesis by simp
      qed
    qed
    have c: "created_ids e (ev # evs) s = created_ids e evs ?s'"
      using False by (auto simp: ev)
    note ih = Cons.IH [OF ok']
    from ih have 1: "sorted_wrt (<) (created_ids e evs ?s')" by simp
    from ih le have 2: "\<forall>i \<in> set (created_ids e evs ?s'). apps_id_seq (db s) < i" by auto
    from ih have 3: "ids_ok (db (run e evs ?s'))" by simp
    from ih have "?ids (run e evs ?s') \<subseteq> ?ids ?s' \<union> set (created_ids e evs ?s')" by simp
    with sub have 4: "?ids (run e evs ?s') \<subseteq> ?ids s \<union> set (created_ids e evs ?s')" by blast
    from 1 2 3 4 show ?thesis
      unfolding c r by (simp only:)
  next
    case True
    then obtain i where rt: "route req = PostApps" and some: "returned_id (fst (handle e w req s)) = Some i"
      by auto
    from handle_post_ids [OF Cons.prems rt, of e w]
    have "ids_ok (db ?s') \<and> i = apps_id_seq (db s) + 1 \<and> apps_id_seq (db ?s') = i
          \<and> ?ids ?s' \<subseteq> insert i (?ids s)"
      unfolding some by auto
    then have ok': "ids_ok (db ?s')" and i: "i = apps_id_seq (db s) + 1" "apps_id_seq (db ?s') = i"
      and sub: "?ids ?s' \<subseteq> insert i (?ids s)"
      by blast+
    have c: "created_ids e (ev # evs) s = i # created_ids e evs ?s'"
      using rt some by (simp add: ev)
    note ih = Cons.IH [OF ok']
    from ih i have later: "\<forall>j \<in> set (created_ids e evs ?s'). i < j" by simp
    from ih later have 1: "sorted_wrt (<) (i # created_ids e evs ?s')" by simp
    from later i have 2: "\<forall>j \<in> set (i # created_ids e evs ?s'). apps_id_seq (db s) < j" by auto
    from ih have 3: "ids_ok (db (run e evs ?s'))" by simp
    from ih have "?ids (run e evs ?s') \<subseteq> ?ids ?s' \<union> set (created_ids e evs ?s')" by simp
    moreover have "set (i # created_ids e evs ?s') = insert i (set (created_ids e evs ?s'))"
      by simp
    ultimately have 4: "?ids (run e evs ?s') \<subseteq> ?ids s \<union> set (i # created_ids e evs ?s')"
      using sub by blast
    from 1 2 3 4 show ?thesis
      unfolding c r by (simp only:)
  qed
qed

text \<open>
  C9: starting from a freshly created table, along every run of requests the ids that the
  successful creates return are strictly increasing in the order of the run, each
  strictly greater than all returned before it, hence pairwise distinct; the ids of the
  rows of the table are pairwise distinct and each of them is one of the returned ids.
\<close>

theorem C9_ids_increase:
  assumes "db s = fresh_store"
  shows "sorted_wrt (<) (created_ids e evs s)
         \<and> distinct (created_ids e evs s)
         \<and> distinct (map c_id (apps (db (run e evs s))))
         \<and> set (map c_id (apps (db (run e evs s)))) \<subseteq> set (created_ids e evs s)"
proof -
  have ok: "ids_ok (db s)"
    using assms by (simp add: ids_ok_def fresh_store_def)
  from run_ids [OF ok, of e evs]
  have srt: "sorted_wrt (<) (created_ids e evs s)"
    and inv: "ids_ok (db (run e evs s))"
    and sub: "set (map c_id (apps (db (run e evs s))))
             \<subseteq> set (map c_id (apps (db s))) \<union> set (created_ids e evs s)"
    by simp_all
  from srt have "distinct (created_ids e evs s)"
    by (simp add: strict_sorted_iff)
  with srt inv sub assms show ?thesis
    by (simp add: ids_ok_def fresh_store_def)
qed


lemma two_creates_ids: "created_ids env0 two_creates admin_fresh = [1, 2]"
  by (simp add: two_creates_def admin_fresh_def fresh_store_def handle_def isAuthenticated_def
        req_session_def req_create_def req_delete_def req0_def post_apps_def insert_app_def
        delete_handler_def delete_app_def Let_def world0_def decimal_samples first_row_def
        row_json_def)

theorem C9_ids_increase_witness:
  "db admin_fresh = fresh_store
   \<and> created_ids env0 two_creates admin_fresh = [1, 2]
   \<and> sorted_wrt (<) (created_ids env0 two_creates admin_fresh)
   \<and> distinct (map c_id (apps (db (run env0 two_creates admin_fresh))))"
proof -
  have f: "db admin_fresh = fresh_store"
    by (simp add: admin_fresh_def)
  from C9_ids_increase [OF f, of env0 two_creates]
  have "sorted_wrt (<) (created_ids env0 two_creates admin_fresh)
        \<and> distinct (map c_id (apps (db (run env0 two_creates admin_fresh))))"
    by blast
  with f two_creates_ids show ?thesis by (simp only:)
qed

end
